theory Spec2Isabelle
  imports Complex_Main
begin

section \<open>JavaScript numbers\<close>

text \<open>
  The plot directive computes with JavaScript numbers, which are IEEE 754 binary64
  values. A finite number is modelled by the real it denotes, and every sum, product and
  quotient of finite numbers is rounded to the nearest double, ties to even, and overflows
  to an infinity (\<open>fl\<close>). The three non-finite values are kept: \<open>0 / 0\<close> is \<open>NaN\<close>, \<open>NaN\<close>
  is falsy, and every comparison with \<open>NaN\<close> is false. The sign of zero is not modelled:
  \<open>-0\<close> is \<open>0\<close>, and a quotient by zero takes its sign from the numerator. A variable that
  may hold \<open>undefined\<close> is an option; \<open>undefined\<close> converts to \<open>NaN\<close> where a number is
  required.
\<close>

datatype jsnum = Num real | NaN | PInf | NInf

fun toNumber :: "jsnum option \<Rightarrow> jsnum" where
  "toNumber None = NaN"
| "toNumber (Some v) = v"

text \<open>The sign of an infinite result: positive iff the flag is true.\<close>

definition signedInf :: "bool \<Rightarrow> jsnum" where
  "signedInf pos = (if pos then PInf else NInf)"

text \<open>The nearest integer, with a tie going to the even one.\<close>

definition roundEven :: "real \<Rightarrow> int" where
  "roundEven t =
     (let f = \<lfloor>t\<rfloor>; r = t - of_int f
      in if r < 1 / 2 then f else if 1 / 2 < r then f + 1 else if even f then f else f + 1)"

text \<open>
  The binary exponent of a magnitude \<open>y\<close>: the least \<open>e\<close> from \<open>-1022\<close> on (the exponent
  of the subnormal numbers) with \<open>y < 2 ^ (e + 1)\<close>, and \<open>1024\<close> when there is none up to
  \<open>1023\<close>.
\<close>

function binade :: "real \<Rightarrow> int \<Rightarrow> int" where
  "binade y e = (if e < 1024 \<and> 2 powi (e + 1) \<le> y then binade y (e + 1) else e)"
  by pat_completeness auto
termination
  by (relation "measure (\<lambda>(y, e). nat (1024 - e))") auto

definition expo :: "real \<Rightarrow> int" where
  "expo y = binade y (- 1022)"

text \<open>
  Rounding to binary64: the doubles of the binade of \<open>x\<close> are the multiples of
  \<open>2 ^ (e - 52)\<close>; \<open>x\<close> goes to the nearest of them, and a result of magnitude \<open>2 ^ 1024\<close>
  is an infinity.
\<close>

definition fl :: "real \<Rightarrow> jsnum" where
  "fl x =
     (let u = 2 powi (expo \<bar>x\<bar> - 52);
          y = of_int (roundEven (x / u)) * u
      in if 2 powi 1024 \<le> \<bar>y\<bar> then signedInf (0 < x) else Num y)"

fun jneg :: "jsnum \<Rightarrow> jsnum" where
  "jneg (Num a) = Num (- a)"
| "jneg NaN = NaN"
| "jneg PInf = NInf"
| "jneg NInf = PInf"

fun jadd :: "jsnum \<Rightarrow> jsnum \<Rightarrow> jsnum" where
  "jadd (Num a) (Num b) = fl (a + b)"
| "jadd NaN _ = NaN"
| "jadd _ NaN = NaN"
| "jadd PInf NInf = NaN"
| "jadd NInf PInf = NaN"
| "jadd PInf _ = PInf"
| "jadd _ PInf = PInf"
| "jadd NInf _ = NInf"
| "jadd _ NInf = NInf"

definition jsub :: "jsnum \<Rightarrow> jsnum \<Rightarrow> jsnum" where
  "jsub a b = jadd a (jneg b)"

fun jmul :: "jsnum \<Rightarrow> jsnum \<Rightarrow> jsnum" where
  "jmul (Num a) (Num b) = fl (a * b)"
| "jmul NaN _ = NaN"
| "jmul _ NaN = NaN"
| "jmul (Num a) PInf = (if a = 0 then NaN else signedInf (0 < a))"
| "jmul (Num a) NInf = (if a = 0 then NaN else signedInf (a < 0))"
| "jmul PInf (Num b) = (if b = 0 then NaN else signedInf (0 < b))"
| "jmul NInf (Num b) = (if b = 0 then NaN else signedInf (b < 0))"
| "jmul PInf PInf = PInf"
| "jmul NInf NInf = PInf"
| "jmul PInf NInf = NInf"
| "jmul NInf PInf = NInf"

fun jdiv :: "jsnum \<Rightarrow> jsnum \<Rightarrow> jsnum" where
  "jdiv (Num a) (Num b) =
     (if b = 0 then (if a = 0 then NaN else signedInf (0 < a)) else fl (a / b))"
| "jdiv NaN _ = NaN"
| "jdiv _ NaN = NaN"
| "jdiv (Num a) _ = Num 0"
| "jdiv PInf (Num b) = signedInf (0 \<le> b)"
| "jdiv NInf (Num b) = signedInf (b < 0)"
| "jdiv _ _ = NaN"

text \<open>
  \<open>Math.abs\<close> and \<open>Math.round\<close> (the integer nearest to \<open>x\<close>, a tie going up) are exact
  on doubles.
\<close>

fun jabs :: "jsnum \<Rightarrow> jsnum" where
  "jabs (Num a) = Num \<bar>a\<bar>"
| "jabs NaN = NaN"
| "jabs _ = PInf"

fun jround :: "jsnum \<Rightarrow> jsnum" where
  "jround (Num a) = Num (of_int \<lfloor>a + 1 / 2\<rfloor>)"
| "jround v = v"

text \<open>Truthiness of a number, and \<open>a || b\<close> on numbers.\<close>

fun truthy :: "jsnum \<Rightarrow> bool" where
  "truthy (Num a) = (a \<noteq> 0)"
| "truthy NaN = False"
| "truthy _ = True"

definition js_or :: "jsnum \<Rightarrow> jsnum \<Rightarrow> jsnum" where
  "js_or a b = (if truthy a then a else b)"

text \<open>The comparisons \<open><\<close>, \<open><=\<close> and \<open>>=\<close>: false whenever an operand is \<open>NaN\<close>.\<close>

fun jlt :: "jsnum \<Rightarrow> jsnum \<Rightarrow> bool" where
  "jlt (Num a) (Num b) = (a < b)"
| "jlt NaN _ = False"
| "jlt _ NaN = False"
| "jlt _ NInf = False"
| "jlt PInf _ = False"
| "jlt _ _ = True"

fun jle :: "jsnum \<Rightarrow> jsnum \<Rightarrow> bool" where
  "jle (Num a) (Num b) = (a \<le> b)"
| "jle NaN _ = False"
| "jle _ NaN = False"
| "jle NInf _ = True"
| "jle _ PInf = True"
| "jle _ _ = False"

definition jge :: "jsnum \<Rightarrow> jsnum \<Rightarrow> bool" where
  "jge a b = jle b a"

section \<open>The plot directive (MCTPlot.js): data\<close>

record point =
  domain :: jsnum
  range' :: jsnum

record viewport =
  topLeft :: point
  bottomRight :: point

record elementPoint =
  elem_x :: jsnum
  elem_y :: jsnum

record bounds =
  b_left :: jsnum
  b_top :: jsnum
  b_width :: jsnum
  b_height :: jsnum

record touchPosition =
  clientX :: jsnum
  clientY :: jsnum

record position =
  positionOverElement :: elementPoint
  positionAsPlotPoint :: point

text \<open>The event object of \<open>mct:pinch:change\<close>, as far as \<open>onPinchChange\<close> reads it.\<close>

record pinch =
  midpoint :: touchPosition
  pinch_bounds :: bounds
  distance :: jsnum

record marquee =
  start :: "point option"
  end' :: "point option"

record rectangle =
  rect_start :: point
  rect_end :: point
  color :: "real list"
  layer :: string

text \<open>
  \<open>$scope.rectangles\<close> holds object references: the directive's own marquee rectangle
  (the object \<open>marqueeRect\<close> points to) and rectangles of the enclosing scope.
\<close>

datatype rect_ref = MarqueeRect | ForeignRect nat

text \<open>What \<open>$scope.$emit\<close> and \<open>$scope.$broadcast\<close> send, in order.\<close>

datatype event =
    ViewportChangeStart
  | ViewportChangeEnd viewport
  | RectangleChange

datatype error = TypeError

text \<open>
  The module is a function of \<open>utils\<close> (\<open>../lib/utils\<close>, which is not among the sources):
  its three functions are the parameters of the model. The two box functions receive
  \<open>marqueeBox.start\<close> and \<open>marqueeBox.end\<close> as they are, possibly \<open>undefined\<close>, and may
  raise.
\<close>

record utils =
  boxPointsFromOppositeCorners :: "point option \<Rightarrow> point option \<Rightarrow> error + point list"
  oppositeCornersFromBoxPoints :: "point list \<Rightarrow> error + viewport"
  elementPositionAsPlotPosition :: "elementPoint \<Rightarrow> bounds \<Rightarrow> viewport \<Rightarrow> point"

text \<open>
  The state of one linked directive: the scope fields it reads and writes, the variables
  of the closure of \<open>link\<close>, and the events sent so far. The axes, which a watcher
  recomputes after a change of the viewport, are not part of it.
\<close>

record scope =
  viewport :: viewport
  mouseCoordinates :: "position option"
  rectangles :: "rect_ref list"
  emitted :: "event list"
  dragStart :: "point option"
  marqueeBox :: marquee
  marqueeRect :: "rectangle option"
  chartElementBounds :: "bounds option"
  firstTouches :: "(point \<times> point) option"
  firstTouch :: "point option"
  firstTouchDistance :: "jsnum option"
  lastTouchDistance :: "jsnum option"

text \<open>The literal \<open>0.02\<close> is the double nearest to \<open>2 / 100\<close>.\<close>

definition ZOOM_AMT :: jsnum where
  "ZOOM_AMT = fl (2 / 100)"

definition PINCH_DRAG_AMT :: jsnum where
  "PINCH_DRAG_AMT = Num 2"

text \<open>The state right after \<open>link\<close>, for a given viewport and rectangles of the scope.\<close>

definition link :: "viewport \<Rightarrow> rect_ref list \<Rightarrow> scope" where
  "link v rs =
     \<lparr>viewport = v, mouseCoordinates = None, rectangles = rs, emitted = [],
      dragStart = None, marqueeBox = \<lparr>start = None, end' = None\<rparr>, marqueeRect = None,
      chartElementBounds = None, firstTouches = None, firstTouch = None,
      firstTouchDistance = None, lastTouchDistance = None\<rparr>"

section \<open>Zoom\<close>

record dimensions =
  dim_tl :: point
  dim_br :: point

definition setDimensions :: "scope \<Rightarrow> point \<Rightarrow> dimensions" where
  "setDimensions s mp =
     \<lparr>dim_tl =
        \<lparr>domain = jabs (jsub (domain mp) (domain (topLeft (viewport s)))),
         range' = jabs (jsub (range' mp) (range' (topLeft (viewport s))))\<rparr>,
      dim_br =
        \<lparr>domain = jabs (jsub (domain (bottomRight (viewport s))) (domain mp)),
         range' = jabs (jsub (range' (bottomRight (viewport s))) (range' mp))\<rparr>\<rparr>"

text \<open>\<open>type\<close> of the source: \<open>(-1 * (checkRatio / Math.abs(checkRatio))) || 1\<close>.\<close>

definition zoomType :: "jsnum \<Rightarrow> jsnum" where
  "zoomType ratio =
     (let checkRatio = js_or (jsub ratio (Num 1)) (Num 0)
      in js_or (jmul (Num (- 1)) (jdiv checkRatio (jabs checkRatio))) (Num 1))"

definition calculateViewport :: "scope \<Rightarrow> point \<Rightarrow> jsnum \<Rightarrow> viewport" where
  "calculateViewport s mp ratio =
     (let dimensions = setDimensions s mp;
          type = zoomType ratio;
          tl = \<lparr>domain = jmul (jmul type ZOOM_AMT) (domain (dim_tl dimensions)),
                range' = jmul (jmul type ZOOM_AMT) (range' (dim_tl dimensions))\<rparr>;
          br = \<lparr>domain = jmul (jmul type ZOOM_AMT) (domain (dim_br dimensions)),
                range' = jmul (jmul type ZOOM_AMT) (range' (dim_br dimensions))\<rparr>
      in \<lparr>topLeft =
            \<lparr>domain = jadd (domain (topLeft (viewport s))) (domain tl),
             range' = jsub (range' (topLeft (viewport s))) (range' tl)\<rparr>,
          bottomRight =
            \<lparr>domain = jsub (domain (bottomRight (viewport s))) (domain br),
             range' = jadd (range' (bottomRight (viewport s))) (range' br)\<rparr>\<rparr>)"

section \<open>Marquee\<close>

definition drawMarquee :: "scope \<Rightarrow> scope" where
  "drawMarquee s =
     (case (start (marqueeBox s), end' (marqueeBox s)) of
        (Some st, Some en) \<Rightarrow>
          (let s1 = (if marqueeRect s = None
                     then s\<lparr>rectangles := rectangles s @ [MarqueeRect]\<rparr> else s)
           in s1\<lparr>marqueeRect :=
                   Some \<lparr>rect_start = st, rect_end = en, color = [1, 1, 1, 1 / 2],
                         layer = ''top''\<rparr>,
                 emitted := emitted s1 @ [RectangleChange]\<rparr>)
      | _ \<Rightarrow>
          (if marqueeRect s \<noteq> None \<and> MarqueeRect \<in> set (rectangles s)
           then s\<lparr>rectangles := takeWhile (\<lambda>r. r \<noteq> MarqueeRect) (rectangles s),
                  marqueeRect := None,
                  emitted := emitted s @ [RectangleChange]\<rparr>
           else s))"

definition startMarquee :: "scope \<Rightarrow> error + scope" where
  "startMarquee s =
     (case mouseCoordinates s of
        None \<Rightarrow> Inl TypeError
      | Some mc \<Rightarrow>
          Inr (s\<lparr>marqueeBox := (marqueeBox s)\<lparr>start := Some (positionAsPlotPoint mc)\<rparr>\<rparr>))"

definition updateMarquee :: "scope \<Rightarrow> error + scope" where
  "updateMarquee s =
     (case mouseCoordinates s of
        None \<Rightarrow> Inl TypeError
      | Some mc \<Rightarrow>
          Inr (drawMarquee
                 (s\<lparr>marqueeBox := (marqueeBox s)\<lparr>end' := Some (positionAsPlotPoint mc)\<rparr>\<rparr>)))"

definition endMarquee :: "utils \<Rightarrow> scope \<Rightarrow> error + scope" where
  "endMarquee u s =
     (case boxPointsFromOppositeCorners u (start (marqueeBox s)) (end' (marqueeBox s)) of
        Inl e \<Rightarrow> Inl e
      | Inr boxPoints \<Rightarrow>
          (case oppositeCornersFromBoxPoints u boxPoints of
             Inl e \<Rightarrow> Inl e
           | Inr newViewport \<Rightarrow>
               (let s1 = s\<lparr>marqueeBox := \<lparr>start = None, end' = None\<rparr>\<rparr>;
                    s2 = drawMarquee s1;
                    s3 = s2\<lparr>emitted := emitted s2 @ [ViewportChangeEnd newViewport]\<rparr>
                in Inr (s3\<lparr>viewport := newViewport\<rparr>))))"

section \<open>Drag\<close>

text \<open>
  \<open>startDrag\<close> returns the new state and whether it handled the event (it called
  \<open>preventDefault\<close> and returned \<open>false\<close>).
\<close>

definition startDrag :: "scope \<Rightarrow> scope \<times> bool" where
  "startDrag s =
     (let s1 = s\<lparr>emitted := emitted s @ [ViewportChangeStart]\<rparr>
      in case mouseCoordinates s1 of
           None \<Rightarrow> (s1, False)
         | Some mc \<Rightarrow> (s1\<lparr>dragStart := Some (positionAsPlotPoint mc)\<rparr>, True))"

definition updateDrag :: "scope \<Rightarrow> error + scope" where
  "updateDrag s =
     (case mouseCoordinates s of
        None \<Rightarrow> Inl TypeError
      | Some mc \<Rightarrow>
          (case dragStart s of
             None \<Rightarrow> Inl TypeError
           | Some ds \<Rightarrow>
               (let newPosition = positionAsPlotPoint mc;
                    dDomain = jsub (domain ds) (domain newPosition);
                    dRange = jsub (range' ds) (range' newPosition)
                in Inr (s\<lparr>viewport :=
                     \<lparr>topLeft =
                        \<lparr>domain = jadd (domain (topLeft (viewport s))) dDomain,
                         range' = jadd (range' (topLeft (viewport s))) dRange\<rparr>,
                      bottomRight =
                        \<lparr>domain = jadd (domain (bottomRight (viewport s))) dDomain,
                         range' = jadd (range' (bottomRight (viewport s))) dRange\<rparr>\<rparr>\<rparr>))))"

definition endDrag :: "scope \<Rightarrow> scope" where
  "endDrag s =
     (let s1 = s\<lparr>dragStart := None\<rparr>
      in s1\<lparr>emitted := emitted s1 @ [ViewportChangeEnd (viewport s1)]\<rparr>)"

section \<open>Touch: pan and pinch\<close>

text \<open>
  A handler that raises returns the exception only: what it had assigned before (the
  bounds that \<open>trackTouchPosition\<close> records) is not kept by the model.
\<close>

definition trackTouchPosition ::
  "utils \<Rightarrow> scope \<Rightarrow> touchPosition \<Rightarrow> bounds \<Rightarrow> position \<times> scope" where
  "trackTouchPosition u s tp b =
     (let s1 = s\<lparr>chartElementBounds := Some b\<rparr>;
          poe = \<lparr>elem_x = jsub (clientX tp) (b_left b),
                 elem_y = jsub (clientY tp) (b_top b)\<rparr>;
          pap = elementPositionAsPlotPosition u poe b (viewport s1)
      in (\<lparr>positionOverElement = poe, positionAsPlotPoint = pap\<rparr>, s1))"

definition updateZoom :: "utils \<Rightarrow> scope \<Rightarrow> touchPosition \<Rightarrow> bounds \<Rightarrow> jsnum \<Rightarrow> scope" where
  "updateZoom u s mp b dst =
     (let (midpointPosition, s1) = trackTouchPosition u s mp b;
          newMidpointPosition = positionAsPlotPoint midpointPosition;
          distanceRatio = js_or (jdiv (toNumber (lastTouchDistance s1)) dst)
                                (jdiv (toNumber (firstTouchDistance s1)) dst);
          newViewport = calculateViewport s1 newMidpointPosition distanceRatio
      in s1\<lparr>viewport := newViewport\<rparr>)"

definition updatePan :: "utils \<Rightarrow> scope \<Rightarrow> touchPosition \<Rightarrow> bounds \<Rightarrow> error + scope" where
  "updatePan u s tp b =
     (let (panPosition, s1) = trackTouchPosition u s tp b;
          newPanPosition = positionAsPlotPoint panPosition
      in case firstTouch s1 of
           None \<Rightarrow> Inl TypeError
         | Some ft \<Rightarrow>
             (let dDomain = jsub (domain ft) (domain newPanPosition);
                  dRange = jsub (range' ft) (range' newPanPosition)
              in Inr (s1\<lparr>viewport :=
                   \<lparr>topLeft =
                      \<lparr>domain = jadd (domain (topLeft (viewport s1))) dDomain,
                       range' = jadd (range' (topLeft (viewport s1))) dRange\<rparr>,
                    bottomRight =
                      \<lparr>domain = jadd (domain (bottomRight (viewport s1))) dDomain,
                       range' = jadd (range' (bottomRight (viewport s1))) dRange\<rparr>\<rparr>\<rparr>)))"

definition startPan :: "utils \<Rightarrow> scope \<Rightarrow> touchPosition \<Rightarrow> bounds \<Rightarrow> scope" where
  "startPan u s tp b =
     (let s1 = s\<lparr>emitted := emitted s @ [ViewportChangeStart]\<rparr>;
          (p, s2) = trackTouchPosition u s1 tp b
      in s2\<lparr>firstTouch := Some (positionAsPlotPoint p)\<rparr>)"

definition endTouch :: "scope \<Rightarrow> scope" where
  "endTouch s = s\<lparr>emitted := emitted s @ [ViewportChangeEnd (viewport s)]\<rparr>"

text \<open>
  \<open>onPinchStart\<close> with \<open>startZoom\<close> inlined; \<open>touches[0]\<close> and \<open>touches[1]\<close> are the two
  fingers, and tracking an absent one raises.
\<close>

definition onPinchStart ::
  "utils \<Rightarrow> scope \<Rightarrow> pinch \<Rightarrow> touchPosition list \<Rightarrow> error + scope" where
  "onPinchStart u s touch touches =
     (let s1 = s\<lparr>emitted := emitted s @ [ViewportChangeStart]\<rparr>
      in case touches of
           t0 # t1 # _ \<Rightarrow>
             (let (p0, s2) = trackTouchPosition u s1 t0 (pinch_bounds touch);
                  (p1, s3) = trackTouchPosition u s2 t1 (pinch_bounds touch);
                  s4 = s3\<lparr>firstTouches :=
                             Some (positionAsPlotPoint p0, positionAsPlotPoint p1),
                           firstTouchDistance := Some (distance touch)\<rparr>;
                  (pm, s5) = trackTouchPosition u s4 (midpoint touch) (pinch_bounds touch)
              in Inr (s5\<lparr>firstTouch := Some (positionAsPlotPoint pm)\<rparr>))
         | _ \<Rightarrow> Inl TypeError)"

definition comparePinchDrag :: "jsnum \<Rightarrow> jsnum \<Rightarrow> jsnum \<Rightarrow> bool" where
  "comparePinchDrag dst firstDistance lastDistance =
     ((jge (jadd firstDistance PINCH_DRAG_AMT) dst \<and>
       jle (jsub firstDistance PINCH_DRAG_AMT) dst) \<or>
      (jge (jadd lastDistance PINCH_DRAG_AMT) dst \<and>
       jle (jsub lastDistance PINCH_DRAG_AMT) dst))"

definition onPinchChange :: "utils \<Rightarrow> scope \<Rightarrow> pinch \<Rightarrow> error + scope" where
  "onPinchChange u s touch =
     (case (if comparePinchDrag (jround (distance touch))
                 (jround (toNumber (firstTouchDistance s)))
                 (jround (toNumber (lastTouchDistance s)))
            then updatePan u s (midpoint touch) (pinch_bounds touch)
            else Inr (updateZoom u s (midpoint touch) (pinch_bounds touch) (distance touch)))
      of Inl e \<Rightarrow> Inl e
       | Inr s1 \<Rightarrow> Inr (s1\<lparr>lastTouchDistance := Some (distance touch)\<rparr>))"

text \<open>
  The extent of the viewport along an axis, as \<open>updateAxesForCurrentViewport\<close> computes
  it (\<open>axisSize = firstTick - lastTick\<close>); the axis is given by its selector.
\<close>

definition axisSize :: "viewport \<Rightarrow> (point \<Rightarrow> jsnum) \<Rightarrow> jsnum" where
  "axisSize v axis = jsub (axis (topLeft v)) (axis (bottomRight v))"

section \<open>The functions of utils\<close>

fun jmax :: "jsnum \<Rightarrow> jsnum \<Rightarrow> jsnum" where
  "jmax NaN _ = NaN"
| "jmax _ NaN = NaN"
| "jmax a b = (if jle a b then b else a)"

fun jmin :: "jsnum \<Rightarrow> jsnum \<Rightarrow> jsnum" where
  "jmin NaN _ = NaN"
| "jmin _ NaN = NaN"
| "jmin a b = (if jle a b then a else b)"

text \<open>
  Modelled from the spec: \<open>utils.boxPointsFromOppositeCorners\<close> and
  \<open>utils.oppositeCornersFromBoxPoints\<close> of \<open>../lib/utils\<close>, which is not among the sources.
  The spec has the pair compute "the axis-aligned rectangle from the two opposite corners"
  and convert it "to a \<open>{topLeft, bottomRight}\<close> viewport (re-deriving correct corner order
  per axis)", with "domain descending, range descending per axis convention", and has the
  operation fail "if either corner is absent". The rectangle is given by its four corners.
\<close>

fun spec_boxPointsFromOppositeCorners ::
  "point option \<Rightarrow> point option \<Rightarrow> error + point list" where
  "spec_boxPointsFromOppositeCorners (Some st) (Some en) =
     Inr [st, \<lparr>domain = domain st, range' = range' en\<rparr>,
          en, \<lparr>domain = domain en, range' = range' st\<rparr>]"
| "spec_boxPointsFromOppositeCorners _ _ = Inl TypeError"

definition spec_oppositeCornersFromBoxPoints :: "point list \<Rightarrow> error + viewport" where
  "spec_oppositeCornersFromBoxPoints ps =
     Inr \<lparr>topLeft = \<lparr>domain = foldr jmax (map domain ps) NInf,
                      range' = foldr jmax (map range' ps) NInf\<rparr>,
          bottomRight = \<lparr>domain = foldr jmin (map domain ps) PInf,
                          range' = foldr jmin (map range' ps) PInf\<rparr>\<rparr>"

text \<open>
  Modelled from the spec: \<open>utils.elementPositionAsPlotPosition\<close> of \<open>../lib/utils\<close>, which
  is not among the sources. The spec has it map "a pixel offset within \<open>bounds\<close> linearly
  onto the data-space rectangle described by \<open>viewport\<close>, inverting the y-axis (pixel y
  increases downward; range increases upward)".
\<close>

definition spec_elementPositionAsPlotPosition ::
  "elementPoint \<Rightarrow> bounds \<Rightarrow> viewport \<Rightarrow> point" where
  "spec_elementPositionAsPlotPosition p b v =
     \<lparr>domain = jadd (domain (topLeft v))
                 (jmul (jdiv (elem_x p) (b_width b))
                       (jsub (domain (bottomRight v)) (domain (topLeft v)))),
      range' = jsub (range' (topLeft v))
                 (jmul (jdiv (elem_y p) (b_height b))
                       (jsub (range' (topLeft v)) (range' (bottomRight v))))\<rparr>"

definition spec_utils :: utils where
  "spec_utils =
     \<lparr>boxPointsFromOppositeCorners = spec_boxPointsFromOppositeCorners,
      oppositeCornersFromBoxPoints = spec_oppositeCornersFromBoxPoints,
      elementPositionAsPlotPosition = spec_elementPositionAsPlotPosition\<rparr>"

section \<open>Summary widget rule: remove\<close>

text \<open>
  A property of \<open>ruleConfigById\<close> holds a rule configuration or \<open>undefined\<close>; reading a
  property the object does not have gives \<open>undefined\<close> too.
\<close>

datatype 'c slot = Undefined | Config 'c

definition getProp :: "(string \<rightharpoonup> 'c slot) \<Rightarrow> string \<Rightarrow> 'c slot" where
  "getProp obj k = (case obj k of None \<Rightarrow> Undefined | Some v \<Rightarrow> v)"

record 'c configuration =
  ruleOrder :: "string list"
  ruleConfigById :: "string \<rightharpoonup> 'c slot"

text \<open>
  A callback is code of the caller: it may change the domain object's configuration and
  the rest of the page (\<open>'w\<close>), or throw (\<open>'e\<close>). An entry of a callback list that is not
  truthy is \<open>None\<close>. The arguments that the callbacks of the other events receive are not
  modelled.
\<close>

type_synonym ('c, 'w, 'e) callback =
  "'c configuration \<times> 'w \<Rightarrow> 'e + 'c configuration \<times> 'w"

record ('c, 'w, 'e) rule =
  config_id :: string
  callbacks_remove :: "('c, 'w, 'e) callback option list"
  callbacks_duplicate :: "('c, 'w, 'e) callback option list"
  callbacks_change :: "('c, 'w, 'e) callback option list"
  callbacks_conditionChange :: "('c, 'w, 'e) callback option list"

text \<open>
  What \<open>remove\<close> works on: the configuration of the domain object, the paths given to
  \<open>openmct.objects.mutate\<close> so far, the rest of the page, and the positions in
  \<open>callbacks.remove\<close> of the callbacks invoked so far (kept for the proofs only).
\<close>

record ('c, 'w) env =
  configuration :: "'c configuration"
  mutated :: "string list"
  page :: 'w
  invoked :: "nat list"

text \<open>
  \<open>Rule.prototype.on\<close>. \<open>this.callbacks\<close> is an object literal with the four lists, so
  \<open>this.callbacks[event]\<close> is a list for the four event names, \<open>undefined\<close> for most other
  keys, and a member of \<open>Object.prototype\<close> for the keys every object inherits: that
  member is truthy and has no \<open>push\<close>, and the call raises.
\<close>

definition objectPrototypeKeys :: "string list" where
  "objectPrototypeKeys =
     [''constructor'', ''hasOwnProperty'', ''isPrototypeOf'', ''propertyIsEnumerable'',
      ''toLocaleString'', ''toString'', ''valueOf'', ''__proto__'', ''__defineGetter__'',
      ''__defineSetter__'', ''__lookupGetter__'', ''__lookupSetter__'']"

definition on ::
  "('c, 'w, 'e) rule \<Rightarrow> string \<Rightarrow> ('c, 'w, 'e) callback option \<Rightarrow> error + ('c, 'w, 'e) rule" where
  "on r ev callback =
     (if ev = ''remove''
      then Inr (r\<lparr>callbacks_remove := callbacks_remove r @ [callback]\<rparr>)
      else if ev = ''duplicate''
      then Inr (r\<lparr>callbacks_duplicate := callbacks_duplicate r @ [callback]\<rparr>)
      else if ev = ''change''
      then Inr (r\<lparr>callbacks_change := callbacks_change r @ [callback]\<rparr>)
      else if ev = ''conditionChange''
      then Inr (r\<lparr>callbacks_conditionChange := callbacks_conditionChange r @ [callback]\<rparr>)
      else if ev \<in> set objectPrototypeKeys then Inl TypeError
      else Inr r)"

text \<open>
  Modelled from the spec: \<open>openmct.objects.mutate\<close>, which is not among the sources and
  which the spec only names as a "persistence/mutation" call. It is taken to assign the
  value at the path of the domain object and to record the path. The two paths and values
  \<open>remove\<close> passes are the two constructors.
\<close>

datatype 'c mutation =
    SetRuleConfigById "string \<rightharpoonup> 'c slot"
  | SetRuleOrder "string list"

fun mutate :: "('c, 'w) env \<Rightarrow> 'c mutation \<Rightarrow> ('c, 'w) env" where
  "mutate env (SetRuleConfigById m) =
     env\<lparr>configuration := (configuration env)\<lparr>ruleConfigById := m\<rparr>,
         mutated := mutated env @ [''configuration.ruleConfigById'']\<rparr>"
| "mutate env (SetRuleOrder ro) =
     env\<lparr>configuration := (configuration env)\<lparr>ruleOrder := ro\<rparr>,
         mutated := mutated env @ [''configuration.ruleOrder'']\<rparr>"

text \<open>
  \<open>callbacks.remove.forEach\<close>: each truthy entry is called, in order; \<open>k\<close> is the position
  of the head of the list. The result is the exception that ended the loop, if any, and
  the state then: a callback that throws was invoked, the callbacks after it are not, and
  what the throwing callback had changed before it threw is not modelled.
\<close>

fun forEachCallback ::
  "('c, 'w, 'e) callback option list \<Rightarrow> nat \<Rightarrow> ('c, 'w) env \<Rightarrow> 'e option \<times> ('c, 'w) env" where
  "forEachCallback [] k env = (None, env)"
| "forEachCallback (None # cs) k env = forEachCallback cs (Suc k) env"
| "forEachCallback (Some f # cs) k env =
     (case f (configuration env, page env) of
        Inl e \<Rightarrow> (Some e, env\<lparr>invoked := invoked env @ [k]\<rparr>)
      | Inr (c, w) \<Rightarrow>
          forEachCallback cs (Suc k)
            (env\<lparr>configuration := c, page := w, invoked := invoked env @ [k]\<rparr>))"

text \<open>
  \<open>ruleOrder\<close> and \<open>ruleConfigById\<close> of the source are references to the array and the
  object of the domain object, which the assignment and \<open>_.remove\<close> change in place;
  \<open>_.remove\<close> (lodash) deletes every element the predicate accepts.
\<close>

definition remove :: "('c, 'w, 'e) rule \<Rightarrow> ('c, 'w) env \<Rightarrow> 'e option \<times> ('c, 'w) env" where
  "remove self env =
     (let ruleConfigById1 = (ruleConfigById (configuration env))(config_id self \<mapsto> Undefined);
          ruleOrder1 = filter (\<lambda>ruleId. \<not> ruleId = config_id self)
                         (ruleOrder (configuration env));
          env1 = env\<lparr>configuration :=
                       \<lparr>ruleOrder = ruleOrder1, ruleConfigById = ruleConfigById1\<rparr>\<rparr>;
          env2 = mutate env1 (SetRuleConfigById ruleConfigById1);
          env3 = mutate env2 (SetRuleOrder ruleOrder1)
      in forEachCallback (callbacks_remove self) 0 env3)"

text \<open>
  The page after the truthy callbacks of a list have run one after the other on a
  configuration that they leave as it is (the loop above, seen from the page).
\<close>

fun pageAfter :: "('c, 'w, 'e) callback option list \<Rightarrow> 'c configuration \<Rightarrow> 'w \<Rightarrow> 'w" where
  "pageAfter [] c w = w"
| "pageAfter (None # cs) c w = pageAfter cs c w"
| "pageAfter (Some f # cs) c w =
     (case f (c, w) of Inl e \<Rightarrow> w | Inr (c', w') \<Rightarrow> pageAfter cs c w')"

section \<open>Finite points and viewports, and sample data\<close>

text \<open>A point and a viewport with finite coordinates.\<close>

definition pt :: "real \<Rightarrow> real \<Rightarrow> point" where
  "pt a b = \<lparr>domain = Num a, range' = Num b\<rparr>"

definition vp :: "real \<Rightarrow> real \<Rightarrow> real \<Rightarrow> real \<Rightarrow> viewport" where
  "vp a b c d = \<lparr>topLeft = pt a b, bottomRight = pt c d\<rparr>"


text \<open>
  A scope in the middle of a gesture: the viewport has its left edge at domain 0 and its
  top edge at range 10, the pointer is over the plot point (3, 4), a drag and a touch
  started at (1, 1), and a pinch was started and last seen at distance 100.
\<close>

definition pinchScope :: scope where
  "pinchScope =
     (link (vp 0 10 10 0) [])
       \<lparr>mouseCoordinates :=
          Some \<lparr>positionOverElement = \<lparr>elem_x = Num 30, elem_y = Num 60\<rparr>,
                positionAsPlotPoint = pt 3 4\<rparr>,
        dragStart := Some (pt 1 1),
        firstTouch := Some (pt 1 1),
        firstTouchDistance := Some (Num 100),
        lastTouchDistance := Some (Num 100)\<rparr>"

definition canvasBounds :: bounds where
  "canvasBounds = \<lparr>b_left = Num 0, b_top = Num 0, b_width = Num 100, b_height = Num 100\<rparr>"

text \<open>
  The pointer rests over the plot point (3, 4); then the mouse button goes down in marquee
  mode (\<open>startMarquee\<close>); then the pointer leaves and comes back to the same point
  (\<open>updateMarquee\<close>), which gives a marquee whose two corners coincide.
\<close>

definition hoverScope :: scope where
  "hoverScope =
     (link (vp 0 10 10 0) [])
       \<lparr>mouseCoordinates :=
          Some \<lparr>positionOverElement = \<lparr>elem_x = Num 30, elem_y = Num 60\<rparr>,
                positionAsPlotPoint = pt 3 4\<rparr>\<rparr>"

definition clickScope :: scope where
  "clickScope = hoverScope\<lparr>marqueeBox := \<lparr>start = Some (pt 3 4), end' = None\<rparr>\<rparr>"

definition pointScope :: scope where
  "pointScope =
     hoverScope
       \<lparr>marqueeBox := \<lparr>start = Some (pt 3 4), end' = Some (pt 3 4)\<rparr>,
        rectangles := [MarqueeRect],
        marqueeRect :=
          Some \<lparr>rect_start = pt 3 4, rect_end = pt 3 4, color = [1, 1, 1, 1 / 2],
                layer = ''top''\<rparr>,
        emitted := [RectangleChange]\<rparr>"

text \<open>
  A number is a double when rounding leaves it as it is.
\<close>

definition isDouble :: "real \<Rightarrow> bool" where
  "isDouble d = (fl d = Num d)"

text \<open>
  A coordinate far enough from the largest double that neither a difference of two such
  coordinates nor a step added to one overflows.
\<close>

definition safe :: "real \<Rightarrow> bool" where
  "safe x = (isDouble x \<and> \<bar>x\<bar> \<le> 2 powi 1022)"

text \<open>
  Three callbacks: one redraws the page, one throws, one puts a rule id back at the end of
  \<open>ruleOrder\<close>. The rule \<open>rule1\<close> with the first registered for \<open>remove\<close>, then
  \<open>undefined\<close>, then the first again; the same rule with the throwing callback and then
  the first; the same rule with the third. A domain object that lists the rule twice.
\<close>

definition redraw :: "(nat, nat, string) callback" where
  "redraw = (\<lambda>(c, w). Inr (c, Suc w))"

definition failing :: "(nat, nat, string) callback" where
  "failing = (\<lambda>(c, w). Inl ''Error'')"

definition restore :: "string \<Rightarrow> (nat, nat, string) callback" where
  "restore i = (\<lambda>(c, w). Inr (c\<lparr>ruleOrder := ruleOrder c @ [i]\<rparr>, w))"

definition sampleRule :: "(nat, nat, string) rule" where
  "sampleRule =
     \<lparr>config_id = ''rule1'', callbacks_remove = [Some redraw, None, Some redraw],
      callbacks_duplicate = [], callbacks_change = [], callbacks_conditionChange = []\<rparr>"

definition failingRule :: "(nat, nat, string) rule" where
  "failingRule = sampleRule\<lparr>callbacks_remove := [Some failing, Some redraw]\<rparr>"

definition restoringRule :: "(nat, nat, string) rule" where
  "restoringRule = sampleRule\<lparr>callbacks_remove := [Some (restore ''rule1'')]\<rparr>"

definition sampleEnv :: "(nat, nat) env" where
  "sampleEnv =
     \<lparr>configuration =
        \<lparr>ruleOrder = [''default'', ''rule1'', ''rule2'', ''rule1''],
         ruleConfigById =
           [''default'' \<mapsto> Config 0, ''rule1'' \<mapsto> Config 1, ''rule2'' \<mapsto> Config 2]\<rparr>,
      mutated = [], page = 0, invoked = []\<rparr>"

section \<open>The doubles of the examples\<close>

text \<open>
  The doubles that the examples meet, each by its exact value: \<open>zoomStep\<close> is the
  literal \<open>0.02\<close>, \<open>double_0_1\<close> the literal \<open>0.1\<close>, and so on for the decimal that
  JavaScript prints for each; \<open>pinchRatio\<close> is \<open>100 / 120\<close>, rounded;
  \<open>extent_before\<close> and \<open>extent_after\<close> are \<open>0.19999999999999998\<close> and
  \<open>0.19999999999999996\<close>.
\<close>

definition zoomStep :: real where
  "zoomStep = 5764607523034235 / 288230376151711744"

definition double_0_1 :: real where
  "double_0_1 = 3602879701896397 / 36028797018963968"

definition double_9_9 :: real where
  "double_9_9 = 5573204538870989 / 562949953421312"



definition double_0_3 :: real where
  "double_0_3 = 5404319552844595 / 18014398509481984"

definition double_1_1 :: real where
  "double_1_1 = 2476979795053773 / 2251799813685248"

definition double_1_3 :: real where
  "double_1_3 = 5854679515581645 / 4503599627370496"

definition extent_before :: real where
  "extent_before = 7205759403792793 / 36028797018963968"

definition extent_after :: real where
  "extent_after = 900719925474099 / 4503599627370496"

definition double_0_6 :: real where
  "double_0_6 = 5404319552844595 / 9007199254740992"








text \<open>
  A drag in progress on a viewport whose domain axis runs from \<open>0.1\<close> to \<open>0.3\<close>: the
  drag started at the plot point (1, 0) and the pointer is over (0, 0).
\<close>

definition dragScope :: scope where
  "dragScope =
     (link (vp double_0_1 10 double_0_3 0) [])
       \<lparr>mouseCoordinates :=
          Some \<lparr>positionOverElement = \<lparr>elem_x = Num 0, elem_y = Num 0\<rparr>,
                positionAsPlotPoint = pt 0 0\<rparr>,
        dragStart := Some (pt 1 0)\<rparr>"

text \<open>
  The viewport literal that \<open>updateDrag\<close> and \<open>updatePan\<close> build: the two deltas added
  to both corners.
\<close>

definition shiftBy :: "viewport \<Rightarrow> jsnum \<Rightarrow> jsnum \<Rightarrow> viewport" where
  "shiftBy v dDomain dRange =
     \<lparr>topLeft = \<lparr>domain = jadd (domain (topLeft v)) dDomain,
                 range' = jadd (range' (topLeft v)) dRange\<rparr>,
      bottomRight = \<lparr>domain = jadd (domain (bottomRight v)) dDomain,
                     range' = jadd (range' (bottomRight v)) dRange\<rparr>\<rparr>"

section \<open>Rounding to the nearest double\<close>

declare binade.simps [simp del]

lemma binade_unique:
  "e0 \<le> e \<Longrightarrow> e \<le> 1024 \<Longrightarrow> (e0 < e \<Longrightarrow> 2 powi e \<le> y) \<Longrightarrow>
   (e < 1024 \<Longrightarrow> y < 2 powi (e + 1)) \<Longrightarrow> binade y e0 = e"
proof (induction y e0 rule: binade.induct)
  case (1 y e0)
  show ?case
  proof (cases "e0 = e")
    case True
    with "1.prems" show ?thesis by (subst binade.simps) auto
  next
    case False
    with "1.prems" have lt: "e0 < e" by simp
    then have "(2::real) powi (e0 + 1) \<le> 2 powi e"
      by (intro power_int_increasing) auto
    with "1.prems" lt have c: "e0 < 1024 \<and> 2 powi (e0 + 1) \<le> y" by auto
    have "binade y (e0 + 1) = e"
      using c lt "1.prems" by (intro "1.IH") auto
    with c show ?thesis by (subst binade.simps) simp
  qed
qed

lemma binade_bounds: "e0 \<le> 1024 \<Longrightarrow> e0 \<le> binade y e0 \<and> binade y e0 \<le> 1024"
proof (induction y e0 rule: binade.induct)
  case (1 y e0)
  show ?case
  proof (cases "e0 < 1024 \<and> 2 powi (e0 + 1) \<le> y")
    case True
    then have "e0 + 1 \<le> binade y (e0 + 1) \<and> binade y (e0 + 1) \<le> 1024"
      by (intro "1.IH") auto
    with True show ?thesis by (subst (1 2) binade.simps) simp
  next
    case False
    with "1.prems" show ?thesis by (subst (1 2) binade.simps) auto
  qed
qed

lemma binade_upper: "binade y e0 < 1024 \<Longrightarrow> y < 2 powi (binade y e0 + 1)"
proof (induction y e0 rule: binade.induct)
  case (1 y e0)
  show ?case
  proof (cases "e0 < 1024 \<and> 2 powi (e0 + 1) \<le> y")
    case True
    then have eq: "binade y e0 = binade y (e0 + 1)" by (subst binade.simps) simp
    with "1.prems" have "binade y (e0 + 1) < 1024" by simp
    with True have "y < 2 powi (binade y (e0 + 1) + 1)" by (intro "1.IH") auto
    with eq show ?thesis by simp
  next
    case False
    then have eq: "binade y e0 = e0" by (subst binade.simps) auto
    with "1.prems" False show ?thesis by auto
  qed
qed

lemma binade_lower: "binade y e0 \<noteq> e0 \<Longrightarrow> 2 powi (binade y e0) \<le> y"
proof (induction y e0 rule: binade.induct)
  case (1 y e0)
  show ?case
  proof (cases "e0 < 1024 \<and> 2 powi (e0 + 1) \<le> y")
    case True
    then have eq: "binade y e0 = binade y (e0 + 1)" by (subst binade.simps) simp
    show ?thesis
    proof (cases "binade y (e0 + 1) = e0 + 1")
      case True
      with eq \<open>e0 < 1024 \<and> 2 powi (e0 + 1) \<le> y\<close> show ?thesis by simp
    next
      case False
      with True have "2 powi (binade y (e0 + 1)) \<le> y" by (intro "1.IH") auto
      with eq show ?thesis by simp
    qed
  next
    case False
    then have "binade y e0 = e0" by (subst binade.simps) auto
    with "1.prems" show ?thesis by simp
  qed
qed

lemma expo_bounds: "- 1022 \<le> expo y \<and> expo y \<le> 1024"
  unfolding expo_def using binade_bounds [of "- 1022" y] by simp

lemma expo_upper: "expo y < 1024 \<Longrightarrow> y < 2 powi (expo y + 1)"
  unfolding expo_def by (rule binade_upper)

lemma expo_lower: "expo y \<noteq> - 1022 \<Longrightarrow> 2 powi (expo y) \<le> y"
  unfolding expo_def by (rule binade_lower)

lemma expo_eq:
  "- 1022 \<le> e \<Longrightarrow> e \<le> 1024 \<Longrightarrow> (- 1022 < e \<Longrightarrow> 2 powi e \<le> y) \<Longrightarrow>
   (e < 1024 \<Longrightarrow> y < 2 powi (e + 1)) \<Longrightarrow> expo y = e"
  unfolding expo_def by (rule binade_unique)

lemma roundEven_half: "\<bar>of_int (roundEven t) - t\<bar> \<le> 1 / 2"
  unfolding roundEven_def Let_def by (auto simp: abs_if) linarith+

lemma roundEven_nearest: "\<bar>of_int (roundEven t) - t\<bar> \<le> \<bar>of_int k - t\<bar>"
proof (cases "k = roundEven t")
  case True
  then show ?thesis by simp
next
  case False
  then have "k \<le> roundEven t - 1 \<or> roundEven t + 1 \<le> k" by linarith
  then have "(of_int k :: real) \<le> of_int (roundEven t) - 1 \<or>
             (of_int (roundEven t) :: real) + 1 \<le> of_int k"
    by (metis of_int_1 of_int_add of_int_diff of_int_le_iff)
  with roundEven_half [of t] show ?thesis by linarith
qed

lemma roundEven_of_int [simp]: "roundEven (of_int k) = k"
  by (simp add: roundEven_def)

lemma pow2_multiple:
  assumes "j \<le> k"
  shows "(2::real) powi k = of_int (2 ^ nat (k - j)) * 2 powi j"
proof -
  have "(2::real) powi k = 2 powi (k - j) * 2 powi j"
    by (simp flip: power_int_add)
  also have "(2::real) powi (k - j) = 2 ^ nat (k - j)"
    using assms by (simp add: power_int_nonneg_exp)
  finally show ?thesis by simp
qed

text \<open>The rounded value is a nearest multiple of the unit.\<close>

lemma scaled_nearest:
  assumes "0 < u"
  shows "\<bar>of_int (roundEven (x / u)) * u - x\<bar> \<le> \<bar>of_int k * u - x\<bar>"
proof -
  have e: "\<bar>of_int n * u - x\<bar> = \<bar>of_int n - x / u\<bar> * u" for n :: int
  proof -
    have "of_int n * u - x = (of_int n - x / u) * u"
      using assms by (simp add: field_simps)
    then show ?thesis
      using assms by (simp add: abs_mult)
  qed
  have "\<bar>of_int (roundEven (x / u)) - x / u\<bar> * u \<le> \<bar>of_int k - x / u\<bar> * u"
    using assms roundEven_nearest [of "x / u" k] by (simp add: mult_right_mono)
  then show ?thesis
    unfolding e .
qed

lemma isDouble_multiple:
  assumes "isDouble d"
  shows "d = of_int (roundEven (d / 2 powi (expo \<bar>d\<bar> - 52))) * 2 powi (expo \<bar>d\<bar> - 52)"
    and "\<bar>d\<bar> < 2 powi 1024"
  using assms unfolding isDouble_def fl_def Let_def signedInf_def
  by (auto split: if_splits)

lemma fl_nearest:
  assumes d: "isDouble d" and x: "fl x = Num r"
  shows "\<bar>r - x\<bar> \<le> \<bar>d - x\<bar>"
proof -
  define ex where "ex = expo \<bar>x\<bar>"
  define ed where "ed = expo \<bar>d\<bar>"
  define u where "u = (2::real) powi (ex - 52)"
  have u: "0 < u" by (simp add: u_def)
  have r: "r = of_int (roundEven (x / u)) * u"
    using x unfolding fl_def Let_def signedInf_def u_def ex_def by (auto split: if_splits)
  have near: "\<bar>r - x\<bar> \<le> \<bar>of_int k * u - x\<bar>" for k
    unfolding r by (rule scaled_nearest [OF u])
  show ?thesis
  proof (cases "ex \<le> ed")
    case True
    have "(2::real) powi (ed - 52) = of_int (2 ^ nat (ed - 52 - (ex - 52))) * u"
      unfolding u_def using True by (intro pow2_multiple) simp
    then have "d = of_int (roundEven (d / 2 powi (ed - 52)) * 2 ^ nat (ed - 52 - (ex - 52))) * u"
      using isDouble_multiple(1) [OF d] unfolding ed_def by simp
    then show ?thesis using near by metis
  next
    case False
    then have lt: "ed < ex" by simp
    have "- 1022 \<le> ed" unfolding ed_def using expo_bounds by simp
    with lt have "ex \<noteq> - 1022" by simp
    then have lo: "2 powi ex \<le> \<bar>x\<bar>" unfolding ex_def by (rule expo_lower)
    have "ex \<le> 1024" unfolding ex_def using expo_bounds by simp
    with lt have "ed < 1024" by simp
    then have "\<bar>d\<bar> < 2 powi (ed + 1)" unfolding ed_def by (rule expo_upper)
    also have "(2::real) powi (ed + 1) \<le> 2 powi ex"
      using lt by (intro power_int_increasing) auto
    finally have dlt: "\<bar>d\<bar> < 2 powi ex" .
    have p: "(2::real) powi ex = of_int (2 ^ nat (ex - (ex - 52))) * u"
      unfolding u_def by (intro pow2_multiple) simp
    show ?thesis
    proof (cases "0 \<le> x")
      case True
      from near [of "2 ^ nat (ex - (ex - 52))"] p have "\<bar>r - x\<bar> \<le> \<bar>2 powi ex - x\<bar>" by simp
      with lo dlt True show ?thesis by linarith
    next
      case False
      from near [of "- (2 ^ nat (ex - (ex - 52)))"] p have "\<bar>r - x\<bar> \<le> \<bar>- (2 powi ex) - x\<bar>"
        by simp
      with lo dlt False show ?thesis by linarith
    qed
  qed
qed

lemma expo_0: "expo 0 = - 1022"
  by (rule expo_eq) simp_all

lemma roundEven_0 [simp]: "roundEven 0 = 0"
  by (simp add: roundEven_def)

lemma fl_0 [simp]: "fl 0 = Num 0"
  by (simp add: fl_def expo_0)

lemma isDouble_0 [simp]: "isDouble 0"
  by (simp add: isDouble_def)

text \<open>Evaluation of \<open>fl\<close> at a value whose binade is known.\<close>

lemma fl_eval:
  assumes "- 1022 \<le> e" and "e \<le> 1023" and "- 1022 < e \<Longrightarrow> 2 powi e \<le> \<bar>x\<bar>"
    and "\<bar>x\<bar> < 2 powi (e + 1)"
  shows "fl x =
     (if 2 powi 1024 \<le> \<bar>real_of_int (roundEven (x / 2 powi (e - 52))) * 2 powi (e - 52)\<bar>
      then signedInf (0 < x)
      else Num (of_int (roundEven (x / 2 powi (e - 52))) * 2 powi (e - 52)))"
proof -
  have "expo \<bar>x\<bar> = e"
    using assms by (intro expo_eq) auto
  then show ?thesis by (simp add: fl_def Let_def)
qed

lemma fl_finite:
  assumes "\<bar>x\<bar> \<le> 2 powi 1023"
  shows "\<exists>r. fl x = Num r \<and> \<bar>r\<bar> \<le> 2 powi 1023"
proof -
  define u where "u = (2::real) powi (expo \<bar>x\<bar> - 52)"
  define r where "r = of_int (roundEven (x / u)) * u"
  have u: "0 < u" by (simp add: u_def)
  have "expo \<bar>x\<bar> \<le> 1024" using expo_bounds by simp
  then have p: "(2::real) powi 1023 = of_int (2 ^ nat (1023 - (expo \<bar>x\<bar> - 52))) * u"
    unfolding u_def by (intro pow2_multiple) simp
  have near: "\<bar>r - x\<bar> \<le> \<bar>of_int k * u - x\<bar>" for k
    unfolding r_def by (rule scaled_nearest [OF u])
  have "\<bar>r\<bar> \<le> 2 powi 1023"
  proof (cases "0 \<le> x")
    case True
    from near [of "2 ^ nat (1023 - (expo \<bar>x\<bar> - 52))"] p
    have "\<bar>r - x\<bar> \<le> \<bar>2 powi 1023 - x\<bar>" by simp
    with assms True show ?thesis by linarith
  next
    case False
    from near [of "- (2 ^ nat (1023 - (expo \<bar>x\<bar> - 52)))"] p
    have "\<bar>r - x\<bar> \<le> \<bar>- (2 powi 1023) - x\<bar>" by simp
    with assms False show ?thesis by linarith
  qed
  moreover have "(2::real) powi 1023 < 2 powi 1024"
    by (intro power_int_strict_increasing) auto
  ultimately have "fl x = Num r" "\<bar>r\<bar> \<le> 2 powi 1023"
    unfolding fl_def Let_def r_def u_def by auto
  then show ?thesis by blast
qed

text \<open>Rounding keeps a value between zero and twice itself, and on its side of a double.\<close>

lemma fl_bound:
  assumes "fl x = Num r"
  shows "\<bar>r\<bar> \<le> 2 * \<bar>x\<bar>" and "0 \<le> x \<Longrightarrow> 0 \<le> r" and "x \<le> 0 \<Longrightarrow> r \<le> 0"
  using fl_nearest [OF isDouble_0 assms] by linarith+

lemma fl_step:
  assumes "isDouble a" and "fl (a + s) = Num r"
  shows "\<bar>r - a\<bar> \<le> 2 * \<bar>s\<bar>" and "0 \<le> s \<Longrightarrow> a \<le> r" and "s \<le> 0 \<Longrightarrow> r \<le> a"
  using fl_nearest [OF assms] by linarith+

lemma fl_one: "fl 1 = Num 1"
  by (subst fl_eval [where e = 0]) (simp_all add: roundEven_def)

lemma fl_minus_one: "fl (- 1) = Num (- 1)"
  by (subst fl_eval [where e = 0]) (simp_all add: roundEven_def)

lemma fl_zoomStep: "fl (2 / 100) = Num zoomStep"
  by (subst fl_eval [where e = "- 6"]) (simp_all add: roundEven_def zoomStep_def)

lemma zoomStep_double: "fl zoomStep = Num zoomStep"
  unfolding zoomStep_def
  by (subst fl_eval [where e = "- 6"]) (simp_all add: roundEven_def)

lemma zoomStep_minus_double: "fl (- zoomStep) = Num (- zoomStep)"
  unfolding zoomStep_def
  by (subst fl_eval [where e = "- 6"]) (simp_all add: roundEven_def)

lemma ZOOM_AMT_eq: "ZOOM_AMT = Num zoomStep"
  unfolding ZOOM_AMT_def by (rule fl_zoomStep)

lemma zoomStep_bounds: "0 < zoomStep" "zoomStep < 1 / 40"
  by (simp_all add: zoomStep_def)


lemma tiny_minus_double: "isDouble (- (2 powi (- 1074)))"
  unfolding isDouble_def
  by (subst fl_eval [where e = "- 1022"]) (simp_all add: roundEven_def)

lemma isDouble_grid:
  assumes "isDouble d"
  shows "\<exists>k::int. d = of_int k * 2 powi (- 1074)"
proof -
  define t where "t = (2::real) powi (- 1074)"
  define u where "u = (2::real) powi (expo \<bar>d\<bar> - 52)"
  define n where "n = (2::int) ^ nat (expo \<bar>d\<bar> - 52 - (- 1074))"
  have "- 1022 \<le> expo \<bar>d\<bar>" using expo_bounds by simp
  then have u: "u = of_int n * t"
    unfolding u_def n_def t_def by (intro pow2_multiple) simp
  have "d = of_int (roundEven (d / u)) * u"
    unfolding u_def by (rule isDouble_multiple(1) [OF assms])
  then have "d = of_int (roundEven (d / u) * n) * t"
    by (subst (asm) (2) u) (simp only: of_int_mult mult.assoc)
  then show ?thesis unfolding t_def by blast
qed

text \<open>A double other than 1 is at least \<open>2 ^ - 1074\<close> away from 1.\<close>

lemma double_minus_one:
  assumes "isDouble r"
  shows "1 < r \<Longrightarrow> 2 powi (- 1074) \<le> r - 1" and "r < 1 \<Longrightarrow> r - 1 \<le> - (2 powi (- 1074))"
proof -
  define t where "t = (2::real) powi (- 1074)"
  define n where "n = (2::int) ^ nat (0 - (- 1074))"
  obtain k :: int where k: "r = of_int k * t"
    using isDouble_grid [OF assms] unfolding t_def by blast
  have "(2::real) powi 0 = of_int n * t"
    unfolding n_def t_def by (intro pow2_multiple) simp
  then have one: "1 = of_int n * t" by simp
  have "r - 1 = of_int k * t - of_int n * t"
    using k one by linarith
  then have e: "r - 1 = of_int (k - n) * t"
    by (simp only: of_int_diff left_diff_distrib)
  have pos: "0 < t" by (simp add: t_def)
  {
    assume "1 < r"
    then have "0 < of_int (k - n) * t" using e by simp
    then have "0 < k - n"
      using pos by (simp add: zero_less_mult_iff)
    then have "(1::real) \<le> of_int (k - n)" by linarith
    then have "1 * t \<le> of_int (k - n) * t"
      using pos by (intro mult_right_mono) auto
    then show "2 powi (- 1074) \<le> r - 1" using e unfolding t_def by simp
  }
  {
    assume "r < 1"
    then have "of_int (k - n) * t < 0" using e by simp
    then have "k - n < 0"
      using pos by (simp add: mult_less_0_iff)
    then have "of_int (k - n) \<le> (- 1::real)" by linarith
    then have "of_int (k - n) * t \<le> - 1 * t"
      using pos by (intro mult_right_mono) auto
    then show "r - 1 \<le> - (2 powi (- 1074))" using e unfolding t_def by simp
  }
qed

lemma zoomType_of_sign:
  assumes "jsub (Num r) (Num 1) = Num y" and "y \<noteq> 0"
  shows "zoomType (Num r) = (if 0 < y then Num (- 1) else Num 1)"
proof (cases "0 < y")
  case True
  then have "y / \<bar>y\<bar> = 1" by simp
  with True assms show ?thesis
    by (simp add: zoomType_def js_or_def Let_def fl_one fl_minus_one)
next
  case False
  with assms have "y < 0" by simp
  then have "y / \<bar>y\<bar> = - 1" by (simp add: abs_if)
  with False assms show ?thesis
    by (simp add: zoomType_def js_or_def Let_def fl_one fl_minus_one)
qed


lemma zoomType_lt:
  assumes "isDouble r" and "\<bar>r\<bar> \<le> 2 powi 1022" and "r < 1"
  shows "zoomType (Num r) = Num 1"
proof -
  have "(2::real) powi 1022 + 1 \<le> 2 powi 1023" by simp
  with assms have "\<bar>r - 1\<bar> \<le> 2 powi 1023" by linarith
  then obtain y where y: "fl (r - 1) = Num y"
    using fl_finite by blast
  from fl_nearest [OF tiny_minus_double y] double_minus_one(2) [OF assms(1,3)]
  have "y < 0"
    using zero_less_power_int [of "2::real" "- 1074"] by linarith
  moreover have "jsub (Num r) (Num 1) = Num y"
    using y by (simp add: jsub_def)
  ultimately show ?thesis
    using zoomType_of_sign [of r y] by simp
qed

lemma zoomType_one: "zoomType (Num 1) = Num 1"
  by (simp add: zoomType_def js_or_def jsub_def Let_def)

lemma zoomType_nonfinite: "zoomType NaN = Num 1" "zoomType PInf = Num 1" "zoomType NInf = Num 1"
  by (simp_all add: zoomType_def js_or_def jsub_def Let_def)

lemma fl_not_NaN: "fl x \<noteq> NaN"
  by (simp add: fl_def Let_def signedInf_def)

lemma zoomType_cases: "zoomType r = Num 1 \<or> zoomType r = Num (- 1)"
proof (cases r)
  case (Num x)
  show ?thesis
  proof (cases "fl (x - 1)")
    case (Num y)
    then have j: "jsub (Num x) (Num 1) = Num y" by (simp add: jsub_def)
    show ?thesis
    proof (cases "y = 0")
      case True
      with j \<open>r = Num x\<close> show ?thesis
        by (simp add: zoomType_def js_or_def Let_def)
    next
      case False
      from zoomType_of_sign [OF j False] \<open>r = Num x\<close> show ?thesis by auto
    qed
  next
    case NaN
    then show ?thesis using fl_not_NaN by blast
  next
    case PInf
    with \<open>r = Num x\<close> show ?thesis
      by (simp add: zoomType_def js_or_def jsub_def Let_def)
  next
    case NInf
    with \<open>r = Num x\<close> show ?thesis
      by (simp add: zoomType_def js_or_def jsub_def Let_def)
  qed
qed (simp_all add: zoomType_nonfinite)

text \<open>Integers below \<open>2 ^ 53\<close> in magnitude are doubles.\<close>

lemma fl_of_int:
  assumes "\<bar>n\<bar> < 2 ^ 53"
  shows "fl (of_int n) = Num (of_int n)"
proof (cases "n = 0")
  case True
  then show ?thesis by simp
next
  case False
  define y where "y = \<bar>real_of_int n\<bar>"
  define e where "e = expo y"
  define u where "u = (2::real) powi (e - 52)"
  have y1: "1 \<le> y" using False unfolding y_def by (simp add: abs_if)
  have "real_of_int \<bar>n\<bar> < real_of_int (2 ^ 53)"
    using assms by (simp only: of_int_less_iff)
  then have y53: "y < 2 powi 53" unfolding y_def by simp
  have b: "- 1022 \<le> e" "e \<le> 1024" unfolding e_def using expo_bounds by simp_all
  have e1024: "e < 1024"
  proof (rule ccontr)
    assume "\<not> e < 1024"
    with b have "e = 1024" by simp
    then have "2 powi 1024 \<le> y" using expo_lower [of y] unfolding e_def by simp
    moreover have "(2::real) powi 53 \<le> 2 powi 1024"
      by (intro power_int_increasing) auto
    ultimately show False using y53 by linarith
  qed
  then have up: "y < 2 powi (e + 1)" unfolding e_def by (rule expo_upper)
  have e0: "0 \<le> e"
  proof (rule ccontr)
    assume "\<not> 0 \<le> e"
    then have "(2::real) powi (e + 1) \<le> 2 powi 0"
      by (intro power_int_increasing) auto
    with up y1 show False by simp
  qed
  have e52: "e \<le> 52"
  proof (rule ccontr)
    assume "\<not> e \<le> 52"
    then have "(2::real) powi 53 \<le> 2 powi e"
      by (intro power_int_increasing) auto
    moreover have "2 powi e \<le> y"
      using expo_lower [of y] e0 unfolding e_def by simp
    ultimately show False using y53 by linarith
  qed
  define N where "N = (2::int) ^ nat (0 - (e - 52))"
  have "(2::real) powi 0 = of_int N * u"
    unfolding N_def u_def using e52 by (intro pow2_multiple) simp
  then have one: "of_int N * u = 1" by simp
  have upos: "0 < u" by (simp add: u_def)
  have "real_of_int n / u = real_of_int n * (of_int N * u) / u"
    by (simp only: one mult_1_right)
  also have "\<dots> = of_int (n * N)"
    using upos by simp
  finally have q: "real_of_int n / u = of_int (n * N)" .
  have "of_int (roundEven (real_of_int n / u)) * u = of_int n * (of_int N * u)"
    unfolding q roundEven_of_int by (simp only: of_int_mult mult.assoc)
  then have r: "of_int (roundEven (real_of_int n / u)) * u = of_int n"
    by (simp only: one mult_1_right)
  have "(2::real) powi 53 \<le> 2 powi 1024"
    by (intro power_int_increasing) auto
  with y53 have "\<not> 2 powi 1024 \<le> \<bar>real_of_int n\<bar>" unfolding y_def by linarith
  then show ?thesis
    unfolding fl_def Let_def
    using r unfolding u_def e_def y_def by simp
qed

lemma fl_numeral [simp]:
  "(numeral k :: int) < 2 ^ 53 \<Longrightarrow> fl (numeral k) = Num (numeral k)"
  "(numeral k :: int) < 2 ^ 53 \<Longrightarrow> fl (- numeral k) = Num (- numeral k)"
  using fl_of_int [of "numeral k"] fl_of_int [of "- numeral k"] by simp_all

lemma fl_1 [simp]: "fl 1 = Num 1" "fl (- 1) = Num (- 1)"
  using fl_of_int [of 1] fl_of_int [of "- 1"] by simp_all

lemma isDouble_numeral [simp]:
  "(numeral k :: int) < 2 ^ 53 \<Longrightarrow> isDouble (numeral k)"
  "(numeral k :: int) < 2 ^ 53 \<Longrightarrow> isDouble (- numeral k)"
  by (simp_all add: isDouble_def)

lemma numeral_below:
  assumes "(numeral k :: int) < 2 ^ 53"
  shows "(numeral k :: real) \<le> 2 powi 1022"
proof -
  from assms have "real_of_int (numeral k) < real_of_int (2 ^ 53)"
    by (simp only: of_int_less_iff)
  then have "(numeral k :: real) < 2 ^ 53" by simp
  moreover have "(2::real) ^ 53 \<le> 2 powi 1022" by simp
  ultimately show ?thesis by linarith
qed

lemma safe_numeral [simp]:
  "(numeral k :: int) < 2 ^ 53 \<Longrightarrow> safe (numeral k)"
  "(numeral k :: int) < 2 ^ 53 \<Longrightarrow> safe (- numeral k)"
  using numeral_below [of k] by (simp_all add: safe_def)

lemma safe_0 [simp]: "safe 0"
  by (simp add: safe_def)

text \<open>A magnitude from \<open>2 ^ 1024\<close> on rounds to an infinity.\<close>

lemma fl_overflow:
  assumes "2 powi 1024 \<le> \<bar>x\<bar>"
  shows "fl x = signedInf (0 < x)"
proof -
  define u where "u = (2::real) powi 972"
  define R where "R = roundEven (x / u)"
  have e: "expo \<bar>x\<bar> = 1024"
    using assms by (intro expo_eq) auto
  have u: "0 < u" by (simp add: u_def)
  have p: "(2::real) powi 1024 = 2 ^ 52 * u"
    unfolding u_def by (simp flip: power_add)
  have h: "\<bar>real_of_int R - x / u\<bar> \<le> 1 / 2"
    unfolding R_def by (rule roundEven_half)
  have "2 ^ 52 \<le> \<bar>x\<bar> / u"
    using assms u unfolding p by (simp add: field_simps)
  then have "2 ^ 52 \<le> \<bar>x / u\<bar>" using u by simp
  with h have "2 ^ 52 - 1 < \<bar>real_of_int R\<bar>" by linarith
  then have "real_of_int (2 ^ 52 - 1) < real_of_int \<bar>R\<bar>" by simp
  then have "2 ^ 52 - 1 < \<bar>R\<bar>" by (simp only: of_int_less_iff)
  then have "2 ^ 52 \<le> \<bar>R\<bar>" by linarith
  then have "real_of_int (2 ^ 52) \<le> real_of_int \<bar>R\<bar>" by (simp only: of_int_le_iff)
  then have "2 ^ 52 \<le> \<bar>real_of_int R\<bar>" by simp
  then have "2 ^ 52 * u \<le> \<bar>real_of_int R\<bar> * u"
    using u by (intro mult_right_mono) auto
  then have "2 powi 1024 \<le> \<bar>real_of_int R * u\<bar>"
    using u unfolding p by (simp add: abs_mult)
  then show ?thesis
    unfolding fl_def Let_def e R_def u_def by simp
qed

lemma big_doubles: "isDouble (2 ^ 1023)" "isDouble (- (2 ^ 1023))" "isDouble (3 * 2 ^ 1022)"
  unfolding isDouble_def
  by (subst fl_eval [where e = 1023], simp_all add: roundEven_def)+

lemma double_literals: "fl (1 / 10) = Num double_0_1" "fl (3 / 10) = Num double_0_3"
  unfolding double_0_1_def double_0_3_def
  by (subst fl_eval [where e = "- 4"], simp_all add: roundEven_def)
     (subst fl_eval [where e = "- 2"], simp_all add: roundEven_def)

section \<open>Zoom: the step of a corner\<close>

lemma pow_1022_1023: "(2::real) powi 1022 + 2 powi 1022 = 2 powi 1023"
  by simp

text \<open>The edge distance, as \<open>setDimensions\<close> computes it, is at most twice the true one.\<close>

lemma edge_distance:
  assumes "\<bar>a\<bar> \<le> 2 powi 1022" and "\<bar>m\<bar> \<le> 2 powi 1022"
  shows "\<exists>D. jabs (jsub (Num m) (Num a)) = Num D \<and> 0 \<le> D \<and> D \<le> 2 * \<bar>m - a\<bar>"
proof -
  have "\<bar>m - a\<bar> \<le> 2 powi 1023"
    using assms pow_1022_1023 by linarith
  then obtain y where y: "fl (m - a) = Num y"
    using fl_finite by blast
  from fl_bound(1) [OF y] have "\<bar>y\<bar> \<le> 2 * \<bar>m - a\<bar>" .
  with y show ?thesis by (simp add: jsub_def)
qed

text \<open>The step taken from an edge distance \<open>D\<close> is at most a twentieth of it.\<close>

lemma step_amount:
  assumes "0 \<le> D" and "D \<le> 2 * 2 powi 1023" and "t = 1 \<or> t = - 1"
  shows "\<exists>S. jmul (jmul (Num t) ZOOM_AMT) (Num D) = Num S \<and> \<bar>S\<bar> \<le> D / 20 \<and>
             (t = 1 \<longrightarrow> 0 \<le> S) \<and> (t = - 1 \<longrightarrow> S \<le> 0)"
proof -
  have tz: "jmul (Num t) ZOOM_AMT = Num (t * zoomStep)"
    using assms(3) by (auto simp: ZOOM_AMT_eq zoomStep_double zoomStep_minus_double)
  have "\<bar>t * zoomStep * D\<bar> = zoomStep * D"
    using assms(1,3) zoomStep_bounds(1) by (auto simp: abs_mult)
  moreover have "zoomStep * D \<le> (1 / 40) * D"
    using zoomStep_bounds(2) assms(1) by (intro mult_right_mono) auto
  ultimately have b: "\<bar>t * zoomStep * D\<bar> \<le> D / 40" by simp
  with assms(2) have "\<bar>t * zoomStep * D\<bar> \<le> 2 powi 1023" by linarith
  then obtain S where S: "fl (t * zoomStep * D) = Num S"
    using fl_finite by blast
  have "\<bar>S\<bar> \<le> D / 20"
    using fl_bound(1) [OF S] b by linarith
  moreover have "t = 1 \<longrightarrow> 0 \<le> S"
    using fl_bound(2) [OF S] assms(1) zoomStep_bounds(1) by auto
  moreover have "t = - 1 \<longrightarrow> S \<le> 0"
    using fl_bound(3) [OF S] assms(1) zoomStep_bounds(1) by (auto simp: mult_le_0_iff)
  ultimately show ?thesis using tz S by simp
qed

text \<open>
  A corner coordinate \<open>a\<close> and the midpoint coordinate \<open>m\<close> of its axis: the new
  coordinate is within a fifth of the distance from the old one, on the side the direction
  gives.
\<close>

lemma corner_step:
  assumes a: "safe a" and m: "\<bar>m\<bar> \<le> 2 powi 1022" and t: "t = 1 \<or> t = - 1"
    and jd: "jd = jabs (jsub (Num m) (Num a)) \<or> jd = jabs (jsub (Num a) (Num m))"
  shows "\<exists>a'. jadd (Num a) (jmul (jmul (Num t) ZOOM_AMT) jd) = Num a' \<and>
               \<bar>a' - a\<bar> \<le> \<bar>m - a\<bar> / 5 \<and> (t = 1 \<longrightarrow> a \<le> a') \<and> (t = - 1 \<longrightarrow> a' \<le> a)"
    and "\<exists>a'. jsub (Num a) (jmul (jmul (Num t) ZOOM_AMT) jd) = Num a' \<and>
               \<bar>a' - a\<bar> \<le> \<bar>m - a\<bar> / 5 \<and> (t = 1 \<longrightarrow> a' \<le> a) \<and> (t = - 1 \<longrightarrow> a \<le> a')"
proof -
  from a have da: "isDouble a" and ma: "\<bar>a\<bar> \<le> 2 powi 1022"
    by (simp_all add: safe_def)
  obtain D where D: "jd = Num D" "0 \<le> D" "D \<le> 2 * \<bar>m - a\<bar>"
    using jd edge_distance [OF ma m] edge_distance [OF m ma] by (auto simp: abs_minus_commute)
  have "\<bar>m - a\<bar> \<le> 2 powi 1023"
    using ma m pow_1022_1023 by linarith
  with D(3) have "D \<le> 2 * 2 powi 1023" by argo
  from step_amount [OF D(2) this t] obtain S where
    S: "jmul (jmul (Num t) ZOOM_AMT) (Num D) = Num S" "\<bar>S\<bar> \<le> D / 20"
      "t = 1 \<longrightarrow> 0 \<le> S" "t = - 1 \<longrightarrow> S \<le> 0"
    by blast
  have s10: "\<bar>S\<bar> \<le> \<bar>m - a\<bar> / 10"
    using S(2) D(3) by linarith
  have "\<bar>m - a\<bar> / 10 \<le> 2 powi 1022"
    using \<open>\<bar>m - a\<bar> \<le> 2 powi 1023\<close> by simp
  with s10 ma pow_1022_1023 have r1: "\<bar>a + S\<bar> \<le> 2 powi 1023" and r2: "\<bar>a + - S\<bar> \<le> 2 powi 1023"
    by linarith+
  obtain p where p: "fl (a + S) = Num p" using fl_finite [OF r1] by blast
  obtain q where q: "fl (a + - S) = Num q" using fl_finite [OF r2] by blast
  have "\<bar>p - a\<bar> \<le> \<bar>m - a\<bar> / 5" "t = 1 \<longrightarrow> a \<le> p" "t = - 1 \<longrightarrow> p \<le> a"
    using fl_step [OF da p] s10 S(3,4) by linarith+
  with p S(1) D(1)
  show "\<exists>a'. jadd (Num a) (jmul (jmul (Num t) ZOOM_AMT) jd) = Num a' \<and>
               \<bar>a' - a\<bar> \<le> \<bar>m - a\<bar> / 5 \<and> (t = 1 \<longrightarrow> a \<le> a') \<and> (t = - 1 \<longrightarrow> a' \<le> a)"
    by simp
  have "\<bar>q - a\<bar> \<le> \<bar>m - a\<bar> / 5" "t = 1 \<longrightarrow> q \<le> a" "t = - 1 \<longrightarrow> a \<le> q"
    using fl_step [OF da q] s10 S(3,4) by linarith+
  with q S(1) D(1)
  show "\<exists>a'. jsub (Num a) (jmul (jmul (Num t) ZOOM_AMT) jd) = Num a' \<and>
               \<bar>a' - a\<bar> \<le> \<bar>m - a\<bar> / 5 \<and> (t = 1 \<longrightarrow> a' \<le> a) \<and> (t = - 1 \<longrightarrow> a \<le> a')"
    by (simp add: jsub_def)
qed

text \<open>The new viewport, corner by corner, for a direction \<open>t\<close>.\<close>

lemma calculateViewport_unfold:
  assumes "viewport s = vp a b c d" and "zoomType ratio = Num t"
  shows "calculateViewport s (pt mx my) ratio =
     \<lparr>topLeft =
        \<lparr>domain = jadd (Num a) (jmul (jmul (Num t) ZOOM_AMT) (jabs (jsub (Num mx) (Num a)))),
         range' = jsub (Num b) (jmul (jmul (Num t) ZOOM_AMT) (jabs (jsub (Num my) (Num b))))\<rparr>,
      bottomRight =
        \<lparr>domain = jsub (Num c) (jmul (jmul (Num t) ZOOM_AMT) (jabs (jsub (Num c) (Num mx)))),
         range' = jadd (Num d) (jmul (jmul (Num t) ZOOM_AMT) (jabs (jsub (Num d) (Num my))))\<rparr>\<rparr>"
  using assms by (simp add: calculateViewport_def setDimensions_def Let_def vp_def pt_def)

lemma calculateViewport_safe:
  assumes v: "viewport s = vp a b c d" and z: "zoomType ratio = Num t"
    and sa: "safe a" "safe b" "safe c" "safe d"
    and sm: "\<bar>mx\<bar> \<le> 2 powi 1022" "\<bar>my\<bar> \<le> 2 powi 1022"
  shows "\<exists>a' b' c' d'.
           calculateViewport s (pt mx my) ratio = vp a' b' c' d' \<and>
           \<bar>a' - a\<bar> \<le> \<bar>mx - a\<bar> / 5 \<and> \<bar>b' - b\<bar> \<le> \<bar>my - b\<bar> / 5 \<and>
           \<bar>c' - c\<bar> \<le> \<bar>mx - c\<bar> / 5 \<and> \<bar>d' - d\<bar> \<le> \<bar>my - d\<bar> / 5 \<and>
           (t = 1 \<longrightarrow> a \<le> a' \<and> b' \<le> b \<and> c' \<le> c \<and> d \<le> d') \<and>
           (t = - 1 \<longrightarrow> a' \<le> a \<and> b \<le> b' \<and> c \<le> c' \<and> d' \<le> d)"
proof -
  have t: "t = 1 \<or> t = - 1"
    using zoomType_cases [of ratio] z by simp
  obtain a' where a': "jadd (Num a) (jmul (jmul (Num t) ZOOM_AMT) (jabs (jsub (Num mx) (Num a))))
      = Num a'" "\<bar>a' - a\<bar> \<le> \<bar>mx - a\<bar> / 5" "t = 1 \<longrightarrow> a \<le> a'" "t = - 1 \<longrightarrow> a' \<le> a"
    using corner_step(1) [OF sa(1) sm(1) t, of "jabs (jsub (Num mx) (Num a))"] by blast
  obtain b' where b': "jsub (Num b) (jmul (jmul (Num t) ZOOM_AMT) (jabs (jsub (Num my) (Num b))))
      = Num b'" "\<bar>b' - b\<bar> \<le> \<bar>my - b\<bar> / 5" "t = 1 \<longrightarrow> b' \<le> b" "t = - 1 \<longrightarrow> b \<le> b'"
    using corner_step(2) [OF sa(2) sm(2) t, of "jabs (jsub (Num my) (Num b))"] by blast
  obtain c' where c': "jsub (Num c) (jmul (jmul (Num t) ZOOM_AMT) (jabs (jsub (Num c) (Num mx))))
      = Num c'" "\<bar>c' - c\<bar> \<le> \<bar>mx - c\<bar> / 5" "t = 1 \<longrightarrow> c' \<le> c" "t = - 1 \<longrightarrow> c \<le> c'"
    using corner_step(2) [OF sa(3) sm(1) t, of "jabs (jsub (Num c) (Num mx))"] by blast
  obtain d' where d': "jadd (Num d) (jmul (jmul (Num t) ZOOM_AMT) (jabs (jsub (Num d) (Num my))))
      = Num d'" "\<bar>d' - d\<bar> \<le> \<bar>my - d\<bar> / 5" "t = 1 \<longrightarrow> d \<le> d'" "t = - 1 \<longrightarrow> d' \<le> d"
    using corner_step(1) [OF sa(4) sm(2) t, of "jabs (jsub (Num d) (Num my))"] by blast
  have "calculateViewport s (pt mx my) ratio = vp a' b' c' d'"
    unfolding calculateViewport_unfold [OF v z] a'(1) b'(1) c'(1) d'(1)
    by (simp add: vp_def pt_def)
  with a'(2-) b'(2-) c'(2-) d'(2-) show ?thesis by blast
qed

lemma double_0_1_double: "fl double_0_1 = Num double_0_1" "fl (- double_0_1) = Num (- double_0_1)"
  unfolding double_0_1_def
  by (subst fl_eval [where e = "- 4"], simp_all add: roundEven_def)+

lemma ev_step5: "jmul (Num zoomStep) (Num 5) = Num double_0_1"
  by (simp add: jsub_def double_0_1_def zoomStep_def, subst fl_eval [where e = "-4"], simp_all add: roundEven_def)



lemma ev_10_minus: "jsub (Num 10) (Num double_0_1) = Num double_9_9"
  by (simp add: jsub_def double_0_1_def double_9_9_def, subst fl_eval [where e = "3"], simp_all add: roundEven_def)





lemma isDouble_2: "isDouble 2" "isDouble (1 / 2)"
  unfolding isDouble_def
  by simp (subst fl_eval [where e = "- 1"], simp_all add: roundEven_def)


lemma zoomType_half: "zoomType (Num (1 / 2)) = Num 1"
  by (rule zoomType_lt) (simp_all add: isDouble_2)

lemma sample_viewport: "viewport (link (vp 0 10 10 0) []) = vp 0 10 10 0"
  by (simp add: link_def)

lemma sample_distances:
  "jabs (jsub (Num 5) (Num 0)) = Num 5" "jabs (jsub (Num 5) (Num 10)) = Num 5"
  "jabs (jsub (Num 10) (Num 5)) = Num 5" "jabs (jsub (Num 0) (Num 5)) = Num 5"
  by (simp_all add: jsub_def)

lemma sample_directions:
  "jmul (Num (- 1)) ZOOM_AMT = Num (- zoomStep)" "jmul (Num 1) ZOOM_AMT = Num zoomStep"
  by (simp_all add: ZOOM_AMT_eq zoomStep_minus_double zoomStep_double)

lemma sample_from_0:
  "jadd (Num 0) (Num (- double_0_1)) = Num (- double_0_1)"
  "jadd (Num 0) (Num double_0_1) = Num double_0_1"
  by (simp_all add: double_0_1_double)


lemma sample_zoom_in:
  "calculateViewport (link (vp 0 10 10 0) []) (pt 5 5) (Num 1)
     = vp double_0_1 double_9_9 double_9_9 double_0_1"
  unfolding calculateViewport_unfold [OF sample_viewport zoomType_one]
    sample_distances sample_directions ev_step5 sample_from_0 ev_10_minus
  by (simp add: vp_def pt_def)





section \<open>Zoom: the direction of the step\<close>




text \<open>
  C7. With ratio exactly 1 the quotient \<open>0 / 0\<close> is \<open>NaN\<close> and the fallback makes the
  direction 1: the result is the viewport whose corner coordinates are those of the
  viewport plus or minus \<open>ZOOM_AMT\<close> times the edge distance (each product and sum
  rounded as the code rounds it), which is the result for every finite ratio below 1.
  For a midpoint strictly inside a viewport with left-to-right, top-to-bottom axes it is
  a step towards the midpoint, never across it. For the viewport with corners (0, 10) and
  (10, 0) and the midpoint (5, 5) the result has the corners (0.1, 9.9) and (9.9, 0.1).
\<close>

theorem calculateViewport_ratio_one:
  "zoomType (Num 1) = Num 1 \<and>
   calculateViewport s mp (Num 1) =
     \<lparr>topLeft =
        \<lparr>domain = jadd (domain (topLeft (viewport s)))
                    (jmul ZOOM_AMT (domain (dim_tl (setDimensions s mp)))),
         range' = jsub (range' (topLeft (viewport s)))
                    (jmul ZOOM_AMT (range' (dim_tl (setDimensions s mp))))\<rparr>,
      bottomRight =
        \<lparr>domain = jsub (domain (bottomRight (viewport s)))
                    (jmul ZOOM_AMT (domain (dim_br (setDimensions s mp)))),
         range' = jadd (range' (bottomRight (viewport s)))
                    (jmul ZOOM_AMT (range' (dim_br (setDimensions s mp))))\<rparr>\<rparr> \<and>
   (isDouble r \<and> \<bar>r\<bar> \<le> 2 powi 1022 \<and> r < 1 \<longrightarrow>
      calculateViewport s mp (Num r) = calculateViewport s mp (Num 1)) \<and>
   (viewport s = vp a b c d \<and> mp = pt mx my \<and> safe a \<and> safe b \<and> safe c \<and> safe d \<and>
    \<bar>mx\<bar> \<le> 2 powi 1022 \<and> \<bar>my\<bar> \<le> 2 powi 1022 \<and> a < mx \<and> mx < c \<and> d < my \<and> my < b \<longrightarrow>
      (\<exists>a' b' c' d'. calculateViewport s mp (Num 1) = vp a' b' c' d' \<and>
         a \<le> a' \<and> a' < mx \<and> mx < c' \<and> c' \<le> c \<and> d \<le> d' \<and> d' < my \<and> my < b' \<and> b' \<le> b))"
proof (intro conjI impI)
  show "zoomType (Num 1) = Num 1" by (rule zoomType_one)
next
  have "jmul (Num 1) ZOOM_AMT = ZOOM_AMT"
    by (simp add: ZOOM_AMT_eq zoomStep_double)
  then show "calculateViewport s mp (Num 1) =
     \<lparr>topLeft =
        \<lparr>domain = jadd (domain (topLeft (viewport s)))
                    (jmul ZOOM_AMT (domain (dim_tl (setDimensions s mp)))),
         range' = jsub (range' (topLeft (viewport s)))
                    (jmul ZOOM_AMT (range' (dim_tl (setDimensions s mp))))\<rparr>,
      bottomRight =
        \<lparr>domain = jsub (domain (bottomRight (viewport s)))
                    (jmul ZOOM_AMT (domain (dim_br (setDimensions s mp)))),
         range' = jadd (range' (bottomRight (viewport s)))
                    (jmul ZOOM_AMT (range' (dim_br (setDimensions s mp))))\<rparr>\<rparr>"
    by (simp add: calculateViewport_def zoomType_one Let_def)
next
  assume "isDouble r \<and> \<bar>r\<bar> \<le> 2 powi 1022 \<and> r < 1"
  then have "zoomType (Num r) = Num 1" by (intro zoomType_lt) simp_all
  then show "calculateViewport s mp (Num r) = calculateViewport s mp (Num 1)"
    by (simp add: calculateViewport_def zoomType_one)
next
  assume h: "viewport s = vp a b c d \<and> mp = pt mx my \<and> safe a \<and> safe b \<and> safe c \<and> safe d \<and>
    \<bar>mx\<bar> \<le> 2 powi 1022 \<and> \<bar>my\<bar> \<le> 2 powi 1022 \<and> a < mx \<and> mx < c \<and> d < my \<and> my < b"
  then have v: "viewport s = vp a b c d" and sa: "safe a" "safe b" "safe c" "safe d"
    and sm: "\<bar>mx\<bar> \<le> 2 powi 1022" "\<bar>my\<bar> \<le> 2 powi 1022"
    and o: "a < mx" "mx < c" "d < my" "my < b"
    by simp_all
  from calculateViewport_safe [OF v zoomType_one sa sm]
  obtain a' b' c' d' where
    r: "calculateViewport s (pt mx my) (Num 1) = vp a' b' c' d'"
    and n: "\<bar>a' - a\<bar> \<le> \<bar>mx - a\<bar> / 5" "\<bar>b' - b\<bar> \<le> \<bar>my - b\<bar> / 5"
           "\<bar>c' - c\<bar> \<le> \<bar>mx - c\<bar> / 5" "\<bar>d' - d\<bar> \<le> \<bar>my - d\<bar> / 5"
    and p: "a \<le> a' \<and> b' \<le> b \<and> c' \<le> c \<and> d \<le> d'"
    by auto
  have "a' < mx" using n(1) o(1) by argo
  moreover have "mx < c'" using n(3) o(2) by argo
  moreover have "d' < my" using n(4) o(3) by argo
  moreover have "my < b'" using n(2) o(4) by argo
  ultimately have "calculateViewport s mp (Num 1) = vp a' b' c' d' \<and>
         a \<le> a' \<and> a' < mx \<and> mx < c' \<and> c' \<le> c \<and> d \<le> d' \<and> d' < my \<and> my < b' \<and> b' \<le> b"
    using r p h by simp
  then show "\<exists>a' b' c' d'. calculateViewport s mp (Num 1) = vp a' b' c' d' \<and>
         a \<le> a' \<and> a' < mx \<and> mx < c' \<and> c' \<le> c \<and> d \<le> d' \<and> d' < my \<and> my < b' \<and> b' \<le> b"
    by blast
qed

theorem calculateViewport_ratio_one_witness:
  "calculateViewport (link (vp 0 10 10 0) []) (pt 5 5) (Num (1 / 2))
     = calculateViewport (link (vp 0 10 10 0) []) (pt 5 5) (Num 1) \<and>
   calculateViewport (link (vp 0 10 10 0) []) (pt 5 5) (Num 1)
     = vp double_0_1 double_9_9 double_9_9 double_0_1 \<and>
   vp double_0_1 double_9_9 double_9_9 double_0_1 \<noteq> vp 0 10 10 0 \<and>
   (\<exists>a' b' c' d'.
      calculateViewport (link (vp 0 10 10 0) []) (pt 5 5) (Num 1) = vp a' b' c' d' \<and>
      0 \<le> a' \<and> a' < 5 \<and> 5 < c' \<and> c' \<le> 10 \<and> 0 \<le> d' \<and> d' < 5 \<and> 5 < b' \<and> b' \<le> 10)"
proof -
  note t = calculateViewport_ratio_one [of "link (vp 0 10 10 0) []" "pt 5 5" "1 / 2"
      0 10 10 0 5 5]
  have h1: "isDouble (1 / 2) \<and> \<bar>1 / 2 :: real\<bar> \<le> 2 powi 1022 \<and> (1 / 2 :: real) < 1"
    by (simp add: isDouble_2)
  have h2: "viewport (link (vp 0 10 10 0) []) = vp 0 10 10 0 \<and> pt 5 5 = pt 5 5 \<and>
            safe 0 \<and> safe 10 \<and> safe 10 \<and> safe 0 \<and>
            \<bar>5::real\<bar> \<le> 2 powi 1022 \<and> \<bar>5::real\<bar> \<le> 2 powi 1022 \<and>
            (0::real) < 5 \<and> (5::real) < 10 \<and> (0::real) < 5 \<and> (5::real) < 10"
    by (simp add: link_def)
  from t h1 have 1: "calculateViewport (link (vp 0 10 10 0) []) (pt 5 5) (Num (1 / 2))
     = calculateViewport (link (vp 0 10 10 0) []) (pt 5 5) (Num 1)"
    by blast
  from t h2 have 2: "\<exists>a' b' c' d'.
      calculateViewport (link (vp 0 10 10 0) []) (pt 5 5) (Num 1) = vp a' b' c' d' \<and>
      0 \<le> a' \<and> a' < 5 \<and> 5 < c' \<and> c' \<le> 10 \<and> 0 \<le> d' \<and> d' < 5 \<and> 5 < b' \<and> b' \<le> 10"
    by blast
  have 3: "vp double_0_1 double_9_9 double_9_9 double_0_1 \<noteq> vp 0 10 10 0"
    by (simp add: vp_def pt_def double_0_1_def)
  from 1 sample_zoom_in 3 2 show ?thesis by blast
qed

section \<open>Zoom: corners stay on their side of the midpoint\<close>

text \<open>
  C9, as the spec states it, fails: it is stated for every viewport, and the difference
  of two doubles can overflow. For the domain axis from \<open>- 2 ^ 1023\<close> to \<open>3 * 2 ^ 1022\<close>
  and the midpoint at \<open>2 ^ 1023\<close>, strictly between them, the edge distance of
  \<open>topLeft\<close> is \<open>Infinity\<close>, and so is the new \<open>topLeft.domain\<close>: it has left its side of
  the midpoint.
\<close>

theorem calculateViewport_overflow_counterexample:
  "isDouble (- (2 ^ 1023)) \<and> isDouble (2 ^ 1023) \<and> isDouble (3 * 2 ^ 1022) \<and>
   - (2 ^ 1023) < (2 ^ 1023 :: real) \<and> (2 ^ 1023 :: real) < 3 * 2 ^ 1022 \<and>
   domain (topLeft (calculateViewport (link (vp (- (2 ^ 1023)) 10 (3 * 2 ^ 1022) 0) [])
                      (pt (2 ^ 1023) 5) (Num 1))) = PInf \<and>
   jlt (Num (2 ^ 1023)) PInf"
proof -
  have v: "viewport (link (vp (- (2 ^ 1023)) 10 (3 * 2 ^ 1022) 0) [])
             = vp (- (2 ^ 1023)) 10 (3 * 2 ^ 1022) 0"
    by (simp add: link_def)
  have o: "jsub (Num (2 ^ 1023)) (Num (- (2 ^ 1023))) = PInf"
    by (simp add: jsub_def fl_overflow signedInf_def)
  have "domain (topLeft (calculateViewport (link (vp (- (2 ^ 1023)) 10 (3 * 2 ^ 1022) 0) [])
                      (pt (2 ^ 1023) 5) (Num 1))) = PInf"
    unfolding calculateViewport_unfold [OF v zoomType_one] o sample_directions
    using zoomStep_bounds(1) by (simp add: signedInf_def)
  then show ?thesis
    using big_doubles by simp
qed

text \<open>
  C9, amended. Let the corner coordinates be doubles of magnitude at most \<open>2 ^ 1022\<close>
  and the midpoint, of magnitude at most \<open>2 ^ 1022\<close>, lie strictly between the two corners
  on each axis (in either order). Then for any ratio, also a non-finite one, the new
  viewport is finite, every corner coordinate is the former one plus or minus the product
  of the direction (1 or -1), \<open>ZOOM_AMT\<close> and its edge distance, as the code rounds
  them, has moved by at most a fifth of its distance to the midpoint, and is strictly on
  the same side of the midpoint as before: on neither axis do the corners meet or change
  order.
\<close>

theorem calculateViewport_keeps_sides:
  assumes "viewport s = vp a b c d"
    and "safe a" and "safe b" and "safe c" and "safe d"
    and "\<bar>mx\<bar> \<le> 2 powi 1022" and "\<bar>my\<bar> \<le> 2 powi 1022"
    and "(a < mx \<and> mx < c) \<or> (c < mx \<and> mx < a)"
    and "(d < my \<and> my < b) \<or> (b < my \<and> my < d)"
  shows "\<exists>a' b' c' d'.
           calculateViewport s (pt mx my) ratio = vp a' b' c' d' \<and>
           (\<exists>t. (t = 1 \<or> t = - 1) \<and> zoomType ratio = Num t \<and>
              Num a' = jadd (Num a) (jmul (jmul (Num t) ZOOM_AMT) (jabs (jsub (Num mx) (Num a)))) \<and>
              Num b' = jsub (Num b) (jmul (jmul (Num t) ZOOM_AMT) (jabs (jsub (Num my) (Num b)))) \<and>
              Num c' = jsub (Num c) (jmul (jmul (Num t) ZOOM_AMT) (jabs (jsub (Num c) (Num mx)))) \<and>
              Num d' = jadd (Num d) (jmul (jmul (Num t) ZOOM_AMT) (jabs (jsub (Num d) (Num my))))) \<and>
           \<bar>a' - a\<bar> \<le> \<bar>mx - a\<bar> / 5 \<and> \<bar>b' - b\<bar> \<le> \<bar>my - b\<bar> / 5 \<and>
           \<bar>c' - c\<bar> \<le> \<bar>mx - c\<bar> / 5 \<and> \<bar>d' - d\<bar> \<le> \<bar>my - d\<bar> / 5 \<and>
           (a' < mx \<longleftrightarrow> a < mx) \<and> a' \<noteq> mx \<and>
           (b' < my \<longleftrightarrow> b < my) \<and> b' \<noteq> my \<and>
           (c' < mx \<longleftrightarrow> c < mx) \<and> c' \<noteq> mx \<and>
           (d' < my \<longleftrightarrow> d < my) \<and> d' \<noteq> my \<and>
           (a' < c' \<longleftrightarrow> a < c) \<and> a' \<noteq> c' \<and>
           (d' < b' \<longleftrightarrow> d < b) \<and> b' \<noteq> d'"
proof -
  obtain t where t: "zoomType ratio = Num t"
    using zoomType_cases [of ratio] by auto
  from calculateViewport_safe [OF assms(1) t assms(2-7)]
  obtain a' b' c' d' where
    v: "calculateViewport s (pt mx my) ratio = vp a' b' c' d'"
    and n: "\<bar>a' - a\<bar> \<le> \<bar>mx - a\<bar> / 5" "\<bar>b' - b\<bar> \<le> \<bar>my - b\<bar> / 5"
           "\<bar>c' - c\<bar> \<le> \<bar>mx - c\<bar> / 5" "\<bar>d' - d\<bar> \<le> \<bar>my - d\<bar> / 5"
    by blast
  have t2: "t = 1 \<or> t = - 1"
    using zoomType_cases [of ratio] t by simp
  have "vp a' b' c' d' =
     \<lparr>topLeft =
        \<lparr>domain = jadd (Num a) (jmul (jmul (Num t) ZOOM_AMT) (jabs (jsub (Num mx) (Num a)))),
         range' = jsub (Num b) (jmul (jmul (Num t) ZOOM_AMT) (jabs (jsub (Num my) (Num b))))\<rparr>,
      bottomRight =
        \<lparr>domain = jsub (Num c) (jmul (jmul (Num t) ZOOM_AMT) (jabs (jsub (Num c) (Num mx)))),
         range' = jadd (Num d) (jmul (jmul (Num t) ZOOM_AMT) (jabs (jsub (Num d) (Num my))))\<rparr>\<rparr>"
    using v calculateViewport_unfold [OF assms(1) t, of mx my] by simp
  then have "Num a' = jadd (Num a) (jmul (jmul (Num t) ZOOM_AMT) (jabs (jsub (Num mx) (Num a))))"
    and "Num b' = jsub (Num b) (jmul (jmul (Num t) ZOOM_AMT) (jabs (jsub (Num my) (Num b))))"
    and "Num c' = jsub (Num c) (jmul (jmul (Num t) ZOOM_AMT) (jabs (jsub (Num c) (Num mx))))"
    and "Num d' = jadd (Num d) (jmul (jmul (Num t) ZOOM_AMT) (jabs (jsub (Num d) (Num my))))"
    by (simp_all add: vp_def pt_def)
  with t t2 have form: "\<exists>t. (t = 1 \<or> t = - 1) \<and> zoomType ratio = Num t \<and>
              Num a' = jadd (Num a) (jmul (jmul (Num t) ZOOM_AMT) (jabs (jsub (Num mx) (Num a)))) \<and>
              Num b' = jsub (Num b) (jmul (jmul (Num t) ZOOM_AMT) (jabs (jsub (Num my) (Num b)))) \<and>
              Num c' = jsub (Num c) (jmul (jmul (Num t) ZOOM_AMT) (jabs (jsub (Num c) (Num mx)))) \<and>
              Num d' = jadd (Num d) (jmul (jmul (Num t) ZOOM_AMT) (jabs (jsub (Num d) (Num my))))"
    by blast
  have a: "(a' < mx \<longleftrightarrow> a < mx) \<and> a' \<noteq> mx" using n(1) assms(8) by argo
  have b: "(b' < my \<longleftrightarrow> b < my) \<and> b' \<noteq> my" using n(2) assms(9) by argo
  have c: "(c' < mx \<longleftrightarrow> c < mx) \<and> c' \<noteq> mx" using n(3) assms(8) by argo
  have d: "(d' < my \<longleftrightarrow> d < my) \<and> d' \<noteq> my" using n(4) assms(9) by argo
  have ac: "(a' < c' \<longleftrightarrow> a < c) \<and> a' \<noteq> c'" using a c assms(8) by argo
  have db: "(d' < b' \<longleftrightarrow> d < b) \<and> b' \<noteq> d'" using b d assms(9) by argo
  have all: "\<bar>a' - a\<bar> \<le> \<bar>mx - a\<bar> / 5 \<and> \<bar>b' - b\<bar> \<le> \<bar>my - b\<bar> / 5 \<and>
           \<bar>c' - c\<bar> \<le> \<bar>mx - c\<bar> / 5 \<and> \<bar>d' - d\<bar> \<le> \<bar>my - d\<bar> / 5 \<and>
           (a' < mx \<longleftrightarrow> a < mx) \<and> a' \<noteq> mx \<and>
           (b' < my \<longleftrightarrow> b < my) \<and> b' \<noteq> my \<and>
           (c' < mx \<longleftrightarrow> c < mx) \<and> c' \<noteq> mx \<and>
           (d' < my \<longleftrightarrow> d < my) \<and> d' \<noteq> my \<and>
           (a' < c' \<longleftrightarrow> a < c) \<and> a' \<noteq> c' \<and>
           (d' < b' \<longleftrightarrow> d < b) \<and> b' \<noteq> d'"
    using n a b c d ac db by blast
  show ?thesis
    by (rule exI [of _ a'], rule exI [of _ b'], rule exI [of _ c'], rule exI [of _ d'])
       (intro conjI v form all)
qed

theorem calculateViewport_keeps_sides_witness:
  "\<exists>a' b' c' d'.
     calculateViewport (link (vp 10 9 2 5) []) (pt 6 7) (Num 3) = vp a' b' c' d' \<and>
     (\<exists>t. (t = 1 \<or> t = - 1) \<and> zoomType (Num 3) = Num t \<and>
        Num a' = jadd (Num 10) (jmul (jmul (Num t) ZOOM_AMT) (jabs (jsub (Num 6) (Num 10)))) \<and>
        Num b' = jsub (Num 9) (jmul (jmul (Num t) ZOOM_AMT) (jabs (jsub (Num 7) (Num 9)))) \<and>
        Num c' = jsub (Num 2) (jmul (jmul (Num t) ZOOM_AMT) (jabs (jsub (Num 2) (Num 6)))) \<and>
        Num d' = jadd (Num 5) (jmul (jmul (Num t) ZOOM_AMT) (jabs (jsub (Num 5) (Num 7))))) \<and>
     \<bar>a' - 10\<bar> \<le> \<bar>6 - 10\<bar> / 5 \<and> \<bar>b' - 9\<bar> \<le> \<bar>7 - 9\<bar> / 5 \<and>
     \<bar>c' - 2\<bar> \<le> \<bar>6 - 2\<bar> / 5 \<and> \<bar>d' - 5\<bar> \<le> \<bar>7 - 5\<bar> / 5 \<and>
     (a' < 6 \<longleftrightarrow> (10::real) < 6) \<and> a' \<noteq> 6 \<and>
     (b' < 7 \<longleftrightarrow> (9::real) < 7) \<and> b' \<noteq> 7 \<and>
     (c' < 6 \<longleftrightarrow> (2::real) < 6) \<and> c' \<noteq> 6 \<and>
     (d' < 7 \<longleftrightarrow> (5::real) < 7) \<and> d' \<noteq> 7 \<and>
     (a' < c' \<longleftrightarrow> (10::real) < 2) \<and> a' \<noteq> c' \<and>
     (d' < b' \<longleftrightarrow> (5::real) < 9) \<and> b' \<noteq> d'"
proof -
  have v: "viewport (link (vp 10 9 2 5) []) = vp 10 9 2 5"
    by (simp add: link_def)
  have s: "safe 10" "safe 9" "safe 2" "safe 5"
    by simp_all
  have m: "\<bar>6::real\<bar> \<le> 2 powi 1022" "\<bar>7::real\<bar> \<le> 2 powi 1022"
    by simp_all
  have h2: "((10::real) < 6 \<and> (6::real) < 2) \<or> ((2::real) < 6 \<and> (6::real) < 10)"
    by simp
  have h3: "((5::real) < 7 \<and> (7::real) < 9) \<or> ((9::real) < 7 \<and> (7::real) < 5)"
    by simp
  show ?thesis
    by (rule calculateViewport_keeps_sides [OF v s m h2 h3])
qed

section \<open>Pan\<close>

lemma ev_shift_tl: "jadd (Num double_0_1) (Num 1) = Num double_1_1"
  by (simp add: jsub_def double_0_1_def double_1_1_def, subst fl_eval [where e = "0"], simp_all add: roundEven_def)

lemma ev_shift_br: "jadd (Num double_0_3) (Num 1) = Num double_1_3"
  by (simp add: jsub_def double_0_3_def double_1_3_def, subst fl_eval [where e = "0"], simp_all add: roundEven_def)

lemma ev_extent_before: "jsub (Num double_0_1) (Num double_0_3) = Num (- extent_before)"
  by (simp add: jsub_def double_0_1_def double_0_3_def extent_before_def, subst fl_eval [where e = "-3"], simp_all add: roundEven_def)

lemma ev_extent_after: "jsub (Num double_1_1) (Num double_1_3) = Num (- extent_after)"
  by (simp add: jsub_def double_1_1_def double_1_3_def extent_after_def, subst fl_eval [where e = "-3"], simp_all add: roundEven_def)

lemma axisSize_vp:
  "axisSize (vp a b c d) domain = fl (a - c)" "axisSize (vp a b c d) range' = fl (b - d)"
  by (simp_all add: axisSize_def vp_def pt_def jsub_def)

lemma updateDrag_shiftBy:
  assumes "dragStart s = Some ds" and "mouseCoordinates s = Some mc"
  shows "updateDrag s =
           Inr (s\<lparr>viewport := shiftBy (viewport s)
                    (jsub (domain ds) (domain (positionAsPlotPoint mc)))
                    (jsub (range' ds) (range' (positionAsPlotPoint mc)))\<rparr>)"
  using assms by (simp add: updateDrag_def shiftBy_def Let_def)

lemma updatePan_shiftBy:
  assumes "firstTouch s = Some ft"
  shows "updatePan u s tp bd =
           Inr (s\<lparr>chartElementBounds := Some bd,
                  viewport := shiftBy (viewport s)
                    (jsub (domain ft)
                       (domain (elementPositionAsPlotPosition u
                          \<lparr>elem_x = jsub (clientX tp) (b_left bd),
                           elem_y = jsub (clientY tp) (b_top bd)\<rparr> bd (viewport s))))
                    (jsub (range' ft)
                       (range' (elementPositionAsPlotPosition u
                          \<lparr>elem_x = jsub (clientX tp) (b_left bd),
                           elem_y = jsub (clientY tp) (b_top bd)\<rparr> bd (viewport s))))\<rparr>)"
  using assms by (simp add: updatePan_def trackTouchPosition_def shiftBy_def Let_def)

lemma shiftBy_exact:
  assumes "jadd (Num a) (Num dx) = Num (a + dx)" and "jadd (Num b) (Num dy) = Num (b + dy)"
    and "jadd (Num c) (Num dx) = Num (c + dx)" and "jadd (Num d) (Num dy) = Num (d + dy)"
  shows "shiftBy (vp a b c d) (Num dx) (Num dy) = vp (a + dx) (b + dy) (c + dx) (d + dy)"
  unfolding shiftBy_def vp_def pt_def using assms
  by (simp del: jadd.simps)

lemma ev_30_100: "jdiv (Num 30) (Num 100) = Num double_0_3"
  by (simp add: jsub_def double_0_3_def, subst fl_eval [where e = "-2"], simp_all add: roundEven_def)

lemma ev_60_100: "jdiv (Num 60) (Num 100) = Num double_0_6"
  by (simp add: jsub_def double_0_6_def, subst fl_eval [where e = "-1"], simp_all add: roundEven_def)

lemma ev_0_3_times_10: "jmul (Num double_0_3) (Num 10) = Num 3"
  by (simp add: jsub_def double_0_3_def, subst fl_eval [where e = "1"], simp_all add: roundEven_def)

lemma ev_0_6_times_10: "jmul (Num double_0_6) (Num 10) = Num 6"
  by (simp add: jsub_def double_0_6_def, subst fl_eval [where e = "2"], simp_all add: roundEven_def)

lemma spec_position_example:
  "elementPositionAsPlotPosition spec_utils
     \<lparr>elem_x = jsub (clientX \<lparr>clientX = Num 30, clientY = Num 60\<rparr>) (b_left canvasBounds),
      elem_y = jsub (clientY \<lparr>clientX = Num 30, clientY = Num 60\<rparr>) (b_top canvasBounds)\<rparr>
     canvasBounds (vp 0 10 10 0) = pt 3 4"
proof -
  have s: "jsub (Num 30) (Num 0) = Num 30" "jsub (Num 60) (Num 0) = Num 60"
    "jsub (Num 10) (Num 0) = Num 10" "jadd (Num 0) (Num 3) = Num 3"
    "jsub (Num 10) (Num 6) = Num 4"
    by (simp_all add: jsub_def)
  show ?thesis
    unfolding spec_utils_def spec_elementPositionAsPlotPosition_def canvasBounds_def
      vp_def pt_def
    by (simp add: s ev_30_100 ev_60_100 ev_0_3_times_10 ev_0_6_times_10
        del: jadd.simps jmul.simps jdiv.simps)
qed

text \<open>
  C2, as the spec states it, fails: the sums are rounded. On the viewport whose domain
  axis runs from \<open>0.1\<close> to \<open>0.3\<close>, a drag by 1 gives the domain axis from \<open>1.1\<close> to
  \<open>1.3\<close>, and the domain extent, \<open>- 0.19999999999999998\<close> before, is
  \<open>- 0.19999999999999996\<close> after.
\<close>

theorem updateDrag_extent_counterexample:
  "updateDrag dragScope = Inr (dragScope\<lparr>viewport := vp double_1_1 10 double_1_3 0\<rparr>) \<and>
   axisSize (viewport dragScope) domain = Num (- extent_before) \<and>
   axisSize (vp double_1_1 10 double_1_3 0) domain = Num (- extent_after) \<and>
   extent_before \<noteq> extent_after"
proof -
  have v: "viewport dragScope = vp double_0_1 10 double_0_3 0"
    and ds: "dragStart dragScope = Some (pt 1 0)"
    and mc: "mouseCoordinates dragScope =
               Some \<lparr>positionOverElement = \<lparr>elem_x = Num 0, elem_y = Num 0\<rparr>,
                     positionAsPlotPoint = pt 0 0\<rparr>"
    by (simp_all add: dragScope_def link_def)
  have sh: "shiftBy (vp double_0_1 10 double_0_3 0) (Num 1) (Num 0)
              = vp double_1_1 10 double_1_3 0"
    unfolding shiftBy_def vp_def pt_def
    by (simp add: ev_shift_tl ev_shift_br del: jadd.simps)
       (simp)
  have d: "jsub (Num 1) (Num 0) = Num 1" "jsub (Num 0) (Num 0) = Num 0"
    by (simp_all add: jsub_def)
  have 1: "updateDrag dragScope = Inr (dragScope\<lparr>viewport := vp double_1_1 10 double_1_3 0\<rparr>)"
    unfolding updateDrag_shiftBy [OF ds mc] v
    by (simp add: pt_def d sh del: jadd.simps)
  have 2: "axisSize (viewport dragScope) domain = Num (- extent_before)"
    unfolding v axisSize_def using ev_extent_before by (simp add: vp_def pt_def)
  have 3: "axisSize (vp double_1_1 10 double_1_3 0) domain = Num (- extent_after)"
    unfolding axisSize_def using ev_extent_after by (simp add: vp_def pt_def)
  have 4: "extent_before \<noteq> extent_after"
    by (simp add: extent_before_def extent_after_def)
  from 1 2 3 4 show ?thesis by blast
qed

text \<open>
  C2, amended. Given a drag start and a pointer position, \<open>updateDrag\<close>, and given a
  first touch, \<open>updatePan\<close>, return the viewport with the same two deltas (start minus
  current, per axis, as the code computes them) added to both corners, whatever the
  points are. When the four sums are exact, that is, not rounded, the domain extent and
  the range extent of the result are those of the viewport before.
\<close>

theorem pan_shifts_corners:
  "(dragStart s = Some ds \<and> mouseCoordinates s = Some mc \<longrightarrow>
      updateDrag s =
        Inr (s\<lparr>viewport := shiftBy (viewport s)
                 (jsub (domain ds) (domain (positionAsPlotPoint mc)))
                 (jsub (range' ds) (range' (positionAsPlotPoint mc)))\<rparr>)) \<and>
   (firstTouch s = Some ft \<longrightarrow>
      updatePan u s tp bd =
        Inr (s\<lparr>chartElementBounds := Some bd,
               viewport := shiftBy (viewport s)
                 (jsub (domain ft)
                    (domain (elementPositionAsPlotPosition u
                       \<lparr>elem_x = jsub (clientX tp) (b_left bd),
                        elem_y = jsub (clientY tp) (b_top bd)\<rparr> bd (viewport s))))
                 (jsub (range' ft)
                    (range' (elementPositionAsPlotPosition u
                       \<lparr>elem_x = jsub (clientX tp) (b_left bd),
                        elem_y = jsub (clientY tp) (b_top bd)\<rparr> bd (viewport s))))\<rparr>)) \<and>
   (jadd (Num a) (Num dx) = Num (a + dx) \<and> jadd (Num b) (Num dy) = Num (b + dy) \<and>
    jadd (Num c) (Num dx) = Num (c + dx) \<and> jadd (Num d) (Num dy) = Num (d + dy) \<longrightarrow>
      shiftBy (vp a b c d) (Num dx) (Num dy) = vp (a + dx) (b + dy) (c + dx) (d + dy) \<and>
      axisSize (shiftBy (vp a b c d) (Num dx) (Num dy)) domain = axisSize (vp a b c d) domain \<and>
      axisSize (shiftBy (vp a b c d) (Num dx) (Num dy)) range' = axisSize (vp a b c d) range')"
proof (intro conjI impI)
  assume "dragStart s = Some ds \<and> mouseCoordinates s = Some mc"
  then show "updateDrag s =
        Inr (s\<lparr>viewport := shiftBy (viewport s)
                 (jsub (domain ds) (domain (positionAsPlotPoint mc)))
                 (jsub (range' ds) (range' (positionAsPlotPoint mc)))\<rparr>)"
    by (intro updateDrag_shiftBy) simp_all
next
  assume "firstTouch s = Some ft"
  then show "updatePan u s tp bd =
        Inr (s\<lparr>chartElementBounds := Some bd,
               viewport := shiftBy (viewport s)
                 (jsub (domain ft)
                    (domain (elementPositionAsPlotPosition u
                       \<lparr>elem_x = jsub (clientX tp) (b_left bd),
                        elem_y = jsub (clientY tp) (b_top bd)\<rparr> bd (viewport s))))
                 (jsub (range' ft)
                    (range' (elementPositionAsPlotPosition u
                       \<lparr>elem_x = jsub (clientX tp) (b_left bd),
                        elem_y = jsub (clientY tp) (b_top bd)\<rparr> bd (viewport s))))\<rparr>)"
    by (rule updatePan_shiftBy)
next
  assume h: "jadd (Num a) (Num dx) = Num (a + dx) \<and> jadd (Num b) (Num dy) = Num (b + dy) \<and>
    jadd (Num c) (Num dx) = Num (c + dx) \<and> jadd (Num d) (Num dy) = Num (d + dy)"
  then have e: "shiftBy (vp a b c d) (Num dx) (Num dy) = vp (a + dx) (b + dy) (c + dx) (d + dy)"
    by (intro shiftBy_exact) simp_all
  show "shiftBy (vp a b c d) (Num dx) (Num dy) = vp (a + dx) (b + dy) (c + dx) (d + dy)"
    by (rule e)
  show "axisSize (shiftBy (vp a b c d) (Num dx) (Num dy)) domain = axisSize (vp a b c d) domain"
    unfolding e axisSize_vp by simp
  show "axisSize (shiftBy (vp a b c d) (Num dx) (Num dy)) range' = axisSize (vp a b c d) range'"
    unfolding e axisSize_vp by simp
qed

theorem pan_shifts_corners_witness:
  "updateDrag pinchScope = Inr (pinchScope\<lparr>viewport := vp (- 2) 7 8 (- 3)\<rparr>) \<and>
   updatePan spec_utils pinchScope \<lparr>clientX = Num 30, clientY = Num 60\<rparr> canvasBounds
     = Inr (pinchScope\<lparr>chartElementBounds := Some canvasBounds,
                       viewport := vp (- 2) 7 8 (- 3)\<rparr>) \<and>
   axisSize (vp (- 2) 7 8 (- 3)) domain = axisSize (vp 0 10 10 0) domain \<and>
   axisSize (vp (- 2) 7 8 (- 3)) range' = axisSize (vp 0 10 10 0) range'"
proof -
  let ?mc = "\<lparr>positionOverElement = \<lparr>elem_x = Num 30, elem_y = Num 60\<rparr>,
              positionAsPlotPoint = pt 3 4\<rparr>"
  let ?tp = "\<lparr>clientX = Num 30, clientY = Num 60\<rparr>"
  have v: "viewport pinchScope = vp 0 10 10 0"
    by (simp add: pinchScope_def link_def)
  have h1: "dragStart pinchScope = Some (pt 1 1) \<and> mouseCoordinates pinchScope = Some ?mc"
    by (simp add: pinchScope_def link_def)
  have h2: "firstTouch pinchScope = Some (pt 1 1)"
    by (simp add: pinchScope_def link_def)
  have h3: "jadd (Num 0) (Num (- 2)) = Num (0 + - 2) \<and> jadd (Num 10) (Num (- 3)) = Num (10 + - 3) \<and>
    jadd (Num 10) (Num (- 2)) = Num (10 + - 2) \<and> jadd (Num 0) (Num (- 3)) = Num (0 + - 3)"
    by simp
  have d: "jsub (Num 1) (Num 3) = Num (- 2)" "jsub (Num 1) (Num 4) = Num (- 3)"
    by (simp_all add: jsub_def)
  note t = pan_shifts_corners [of pinchScope "pt 1 1" ?mc "pt 1 1" spec_utils ?tp canvasBounds
      0 "- 2" 10 "- 3" 10 0]
  from t h3 have e: "shiftBy (vp 0 10 10 0) (Num (- 2)) (Num (- 3))
                       = vp (0 + - 2) (10 + - 3) (10 + - 2) (0 + - 3)"
    and x1: "axisSize (shiftBy (vp 0 10 10 0) (Num (- 2)) (Num (- 3))) domain
               = axisSize (vp 0 10 10 0) domain"
    and x2: "axisSize (shiftBy (vp 0 10 10 0) (Num (- 2)) (Num (- 3))) range'
               = axisSize (vp 0 10 10 0) range'"
    by blast+
  have e': "shiftBy (vp 0 10 10 0) (Num (- 2)) (Num (- 3)) = vp (- 2) 7 8 (- 3)"
    unfolding e by simp
  from t h1 have "updateDrag pinchScope =
        Inr (pinchScope\<lparr>viewport := shiftBy (viewport pinchScope)
                 (jsub (domain (pt 1 1)) (domain (positionAsPlotPoint ?mc)))
                 (jsub (range' (pt 1 1)) (range' (positionAsPlotPoint ?mc)))\<rparr>)"
    by blast
  then have r1: "updateDrag pinchScope = Inr (pinchScope\<lparr>viewport := vp (- 2) 7 8 (- 3)\<rparr>)"
    unfolding v by (simp add: pt_def d e' del: jadd.simps)
  from t h2 have "updatePan spec_utils pinchScope ?tp canvasBounds =
        Inr (pinchScope\<lparr>chartElementBounds := Some canvasBounds,
               viewport := shiftBy (viewport pinchScope)
                 (jsub (domain (pt 1 1))
                    (domain (elementPositionAsPlotPosition spec_utils
                       \<lparr>elem_x = jsub (clientX ?tp) (b_left canvasBounds),
                        elem_y = jsub (clientY ?tp) (b_top canvasBounds)\<rparr> canvasBounds
                       (viewport pinchScope))))
                 (jsub (range' (pt 1 1))
                    (range' (elementPositionAsPlotPosition spec_utils
                       \<lparr>elem_x = jsub (clientX ?tp) (b_left canvasBounds),
                        elem_y = jsub (clientY ?tp) (b_top canvasBounds)\<rparr> canvasBounds
                       (viewport pinchScope))))\<rparr>)"
    by blast
  then have r2: "updatePan spec_utils pinchScope ?tp canvasBounds
     = Inr (pinchScope\<lparr>chartElementBounds := Some canvasBounds,
                       viewport := vp (- 2) 7 8 (- 3)\<rparr>)"
    unfolding v spec_position_example by (simp add: pt_def d e' del: jadd.simps)
  from r1 r2 x1 x2 show ?thesis unfolding e' by blast
qed

section \<open>Pinch: pan or zoom\<close>








text \<open>
  A rounded distance of magnitude up to \<open>2 ^ 52\<close> plus or minus the tolerance is exact.
\<close>

lemma round_band:
  assumes "\<bar>x\<bar> \<le> 2 ^ 52"
  shows "jadd (Num (of_int \<lfloor>x + 1 / 2\<rfloor>)) (Num 2) = Num (of_int (\<lfloor>x + 1 / 2\<rfloor> + 2))"
    and "jsub (Num (of_int \<lfloor>x + 1 / 2\<rfloor>)) (Num 2) = Num (of_int (\<lfloor>x + 1 / 2\<rfloor> - 2))"
proof -
  define n where "n = \<lfloor>x + 1 / 2\<rfloor>"
  have "x + 1 / 2 < of_int ((2::int) ^ 52) + 1" using assms by simp
  then have up: "n \<le> 2 ^ 52" unfolding n_def by (simp only: floor_le_iff)
  have "of_int (- ((2::int) ^ 52)) \<le> x + 1 / 2" using assms by simp
  then have lo: "- (2 ^ 52) \<le> n" unfolding n_def by (simp only: le_floor_iff)
  have "\<bar>n + 2\<bar> < 2 ^ 53" "\<bar>n - 2\<bar> < 2 ^ 53" using up lo by simp_all
  then have "fl (of_int (n + 2)) = Num (of_int (n + 2))"
    and "fl (of_int (n - 2)) = Num (of_int (n - 2))"
    by (simp_all only: fl_of_int)
  then show "jadd (Num (of_int \<lfloor>x + 1 / 2\<rfloor>)) (Num 2) = Num (of_int (\<lfloor>x + 1 / 2\<rfloor> + 2))"
    and "jsub (Num (of_int \<lfloor>x + 1 / 2\<rfloor>)) (Num 2) = Num (of_int (\<lfloor>x + 1 / 2\<rfloor> - 2))"
    unfolding n_def jsub_def by simp_all
qed

lemma band_Num:
  assumes "\<bar>f\<bar> \<le> 2 ^ 52"
  shows "jge (jadd (jround (Num f)) PINCH_DRAG_AMT) (jround (Num d)) \<and>
         jle (jsub (jround (Num f)) PINCH_DRAG_AMT) (jround (Num d))
           \<longleftrightarrow> \<bar>\<lfloor>d + 1 / 2\<rfloor> - \<lfloor>f + 1 / 2\<rfloor>\<bar> \<le> 2"
proof -
  have "jge (jadd (jround (Num f)) PINCH_DRAG_AMT) (jround (Num d)) \<and>
        jle (jsub (jround (Num f)) PINCH_DRAG_AMT) (jround (Num d))
          \<longleftrightarrow> real_of_int \<lfloor>d + 1 / 2\<rfloor> \<le> real_of_int (\<lfloor>f + 1 / 2\<rfloor> + 2) \<and>
              real_of_int (\<lfloor>f + 1 / 2\<rfloor> - 2) \<le> real_of_int \<lfloor>d + 1 / 2\<rfloor>"
    unfolding PINCH_DRAG_AMT_def jround.simps round_band [OF assms] jge_def by simp
  also have "\<dots> \<longleftrightarrow> \<bar>\<lfloor>d + 1 / 2\<rfloor> - \<lfloor>f + 1 / 2\<rfloor>\<bar> \<le> 2"
    unfolding of_int_le_iff by linarith
  finally show ?thesis .
qed


lemma comparePinchDrag_first_only:
  assumes "\<bar>f\<bar> \<le> 2 ^ 52"
  shows "comparePinchDrag (jround (Num d)) (jround (Num f)) (jround (toNumber None)) \<longleftrightarrow>
     \<bar>\<lfloor>d + 1 / 2\<rfloor> - \<lfloor>f + 1 / 2\<rfloor>\<bar> \<le> 2"
proof -
  have "\<not> (jge (jadd (jround NaN) PINCH_DRAG_AMT) (jround (Num d)) \<and>
            jle (jsub (jround NaN) PINCH_DRAG_AMT) (jround (Num d)))"
    by (simp add: jge_def jsub_def PINCH_DRAG_AMT_def)
  then show ?thesis
    unfolding comparePinchDrag_def band_Num [OF assms] toNumber.simps by blast
qed

lemma calculateViewport_bounds [simp]:
  "calculateViewport (s\<lparr>chartElementBounds := x\<rparr>) mp r = calculateViewport s mp r"
  by (simp add: calculateViewport_def setDimensions_def)

lemma updateZoom_eq:
  "updateZoom u s mp b dst =
     s\<lparr>chartElementBounds := Some b,
       viewport := calculateViewport s
          (positionAsPlotPoint (fst (trackTouchPosition u s mp b)))
          (js_or (jdiv (toNumber (lastTouchDistance s)) dst)
                 (jdiv (toNumber (firstTouchDistance s)) dst))\<rparr>"
  by (simp add: updateZoom_def trackTouchPosition_def Let_def)










text \<open>
  On the first update after the start of a pinch there is no previous distance:
  \<open>Math.round(undefined)\<close> is \<open>NaN\<close>, so only the first distance counts, and it is also
  the numerator of the ratio.
\<close>

lemma onPinchChange_first_update:
  assumes "firstTouchDistance s = Some (Num f)" and "lastTouchDistance s = None"
    and "distance touch = Num d" and "\<bar>f\<bar> \<le> 2 ^ 52"
  shows "onPinchChange u s touch =
           (if \<bar>\<lfloor>d + 1 / 2\<rfloor> - \<lfloor>f + 1 / 2\<rfloor>\<bar> \<le> 2
            then map_sum id (\<lambda>s1. s1\<lparr>lastTouchDistance := Some (Num d)\<rparr>)
                   (updatePan u s (midpoint touch) (pinch_bounds touch))
            else Inr (s\<lparr>chartElementBounds := Some (pinch_bounds touch),
                        viewport := calculateViewport s
                          (positionAsPlotPoint
                             (fst (trackTouchPosition u s (midpoint touch) (pinch_bounds touch))))
                          (jdiv (Num f) (Num d)),
                        lastTouchDistance := Some (Num d)\<rparr>))"
proof -
  have r: "js_or (jdiv (toNumber None) (Num d)) (jdiv (Num f) (Num d)) = jdiv (Num f) (Num d)"
    by (simp add: js_or_def)
  show ?thesis
    unfolding onPinchChange_def assms(1-3) toNumber.simps(2)
      comparePinchDrag_first_only [OF assms(4)] updateZoom_eq r
    by (cases "updatePan u s (midpoint touch) (pinch_bounds touch)") simp_all
qed

section \<open>Marquee: the end of the gesture\<close>

lemma endMarquee_Inr:
  assumes "boxPointsFromOppositeCorners u (start (marqueeBox s)) (end' (marqueeBox s)) = Inr bp"
    and "oppositeCornersFromBoxPoints u bp = Inr v"
  shows "endMarquee u s =
           Inr ((drawMarquee (s\<lparr>marqueeBox := \<lparr>start = None, end' = None\<rparr>\<rparr>))
                  \<lparr>emitted :=
                     emitted (drawMarquee (s\<lparr>marqueeBox := \<lparr>start = None, end' = None\<rparr>\<rparr>))
                       @ [ViewportChangeEnd v],
                   viewport := v\<rparr>)"
  using assms by (simp add: endMarquee_def Let_def)

lemma drawMarquee_empty_emitted:
  "\<exists>es. emitted (drawMarquee (s\<lparr>marqueeBox := \<lparr>start = None, end' = None\<rparr>\<rparr>)) = emitted s @ es"
  by (simp add: drawMarquee_def)

lemma endMarquee_raises_or_installs:
  "(\<exists>e. endMarquee u s = Inl e) \<or>
   (\<exists>s' v es. endMarquee u s = Inr s' \<and> viewport s' = v \<and>
      emitted s' = emitted s @ es @ [ViewportChangeEnd v])"
proof (cases "boxPointsFromOppositeCorners u (start (marqueeBox s)) (end' (marqueeBox s))")
  case (Inl e)
  then show ?thesis by (simp add: endMarquee_def)
next
  case bp: (Inr bp)
  show ?thesis
  proof (cases "oppositeCornersFromBoxPoints u bp")
    case (Inl e)
    with bp show ?thesis by (simp add: endMarquee_def)
  next
    case (Inr v)
    obtain es where
      "emitted (drawMarquee (s\<lparr>marqueeBox := \<lparr>start = None, end' = None\<rparr>\<rparr>)) = emitted s @ es"
      using drawMarquee_empty_emitted by blast
    with endMarquee_Inr [OF bp Inr] show ?thesis by simp
  qed
qed

lemma spec_utils_sel:
  "boxPointsFromOppositeCorners spec_utils = spec_boxPointsFromOppositeCorners"
  "oppositeCornersFromBoxPoints spec_utils = spec_oppositeCornersFromBoxPoints"
  "elementPositionAsPlotPosition spec_utils = spec_elementPositionAsPlotPosition"
  by (simp_all add: spec_utils_def)

lemma spec_corners_pt:
  "spec_boxPointsFromOppositeCorners (Some (pt a b)) (Some (pt c d)) =
     Inr [pt a b, pt a d, pt c d, pt c b]"
  "spec_oppositeCornersFromBoxPoints [pt a b, pt a d, pt c d, pt c b] =
     Inr (vp (max a c) (max b d) (min a c) (min b d))"
  by (auto simp: spec_oppositeCornersFromBoxPoints_def vp_def pt_def max_def min_def)

lemma click_reached: "startMarquee hoverScope = Inr clickScope"
  by (simp add: startMarquee_def hoverScope_def clickScope_def link_def)

lemma point_reached: "updateMarquee clickScope = Inr pointScope"
  by (simp add: updateMarquee_def drawMarquee_def hoverScope_def clickScope_def pointScope_def
      link_def)

text \<open>
  C4. \<open>endMarquee\<close> does not look at the corners before it hands them to \<open>utils\<close>. With a
  corner absent it is therefore never a silent no-op, whatever the functions of \<open>utils\<close>
  do: either their exception leaves the handler, or the viewport they return is installed
  and sent with \<open>user:viewport:change:end\<close>. A click without a move (\<open>clickScope\<close>) is
  such a call; with the functions of the spec it raises.
\<close>

theorem endMarquee_absent_corner:
  assumes "start (marqueeBox s) = None \<or> end' (marqueeBox s) = None"
  shows "endMarquee u s \<noteq> Inr s \<and>
         ((\<exists>e. endMarquee u s = Inl e) \<or>
          (\<exists>s' v es. endMarquee u s = Inr s' \<and> viewport s' = v \<and>
             emitted s' = emitted s @ es @ [ViewportChangeEnd v]))"
proof -
  have r: "(\<exists>e. endMarquee u s = Inl e) \<or>
      (\<exists>s' v es. endMarquee u s = Inr s' \<and> viewport s' = v \<and>
         emitted s' = emitted s @ es @ [ViewportChangeEnd v])"
    by (rule endMarquee_raises_or_installs)
  then have "endMarquee u s \<noteq> Inr s" by auto
  then show ?thesis using r by blast
qed

theorem endMarquee_absent_corner_witness:
  "(start (marqueeBox clickScope) = None \<or> end' (marqueeBox clickScope) = None) \<and>
   endMarquee spec_utils clickScope \<noteq> Inr clickScope \<and>
   endMarquee spec_utils clickScope = Inl TypeError"
proof -
  have a: "start (marqueeBox clickScope) = None \<or> end' (marqueeBox clickScope) = None"
    by (simp add: clickScope_def)
  have e: "endMarquee spec_utils clickScope = Inl TypeError"
    by (simp add: endMarquee_def spec_utils_def clickScope_def pt_def)
  from endMarquee_absent_corner [OF a, of spec_utils] a e show ?thesis by blast
qed

text \<open>
  C5, as the spec states it, fails. For the marquee whose two corners are both (3, 4),
  \<open>endMarquee\<close> replaces the viewport with corners (0, 10) and (10, 0) by the one-point
  viewport and sends it.
\<close>

theorem endMarquee_degenerate_counterexample:
  "endMarquee spec_utils pointScope =
     Inr (hoverScope\<lparr>emitted := [RectangleChange, RectangleChange,
                                    ViewportChangeEnd (vp 3 4 3 4)],
                      viewport := vp 3 4 3 4\<rparr>) \<and>
   viewport pointScope = vp 0 10 10 0 \<and>
   vp 3 4 3 4 \<noteq> vp 0 10 10 0"
  by (simp add: endMarquee_def drawMarquee_def spec_utils_def
      spec_oppositeCornersFromBoxPoints_def pointScope_def hoverScope_def link_def vp_def pt_def)

text \<open>
  C5, amended. \<open>endMarquee\<close> has no check for a degenerate marquee. For two present
  corners, whenever the functions of \<open>utils\<close> return a viewport, \<open>endMarquee\<close> clears the
  box, sends \<open>user:viewport:change:end\<close> with that viewport and installs it; with the
  functions of the spec the viewport has the larger coordinates as \<open>topLeft\<close> and the
  smaller as \<open>bottomRight\<close>, and so zero extent on an axis where the corners coincide.
\<close>

theorem endMarquee_no_degenerate_check:
  assumes "start (marqueeBox s) = Some (pt a b)" and "end' (marqueeBox s) = Some (pt c d)"
  shows "(\<forall>bp v. boxPointsFromOppositeCorners u (Some (pt a b)) (Some (pt c d)) = Inr bp \<and>
                 oppositeCornersFromBoxPoints u bp = Inr v \<longrightarrow>
            (\<exists>s' es. endMarquee u s = Inr s' \<and> viewport s' = v \<and>
               marqueeBox s' = \<lparr>start = None, end' = None\<rparr> \<and>
               emitted s' = emitted s @ es @ [ViewportChangeEnd v])) \<and>
         (\<exists>s' es. endMarquee spec_utils s = Inr s' \<and>
            viewport s' = vp (max a c) (max b d) (min a c) (min b d) \<and>
            marqueeBox s' = \<lparr>start = None, end' = None\<rparr> \<and>
            emitted s' = emitted s @ es @
              [ViewportChangeEnd (vp (max a c) (max b d) (min a c) (min b d))])"
proof -
  have gen: "\<exists>s' es. endMarquee u' s = Inr s' \<and> viewport s' = v \<and>
               marqueeBox s' = \<lparr>start = None, end' = None\<rparr> \<and>
               emitted s' = emitted s @ es @ [ViewportChangeEnd v]"
    if bp: "boxPointsFromOppositeCorners u' (Some (pt a b)) (Some (pt c d)) = Inr bp"
      and v: "oppositeCornersFromBoxPoints u' bp = Inr v" for u' bp v
  proof -
    obtain es where es:
      "emitted (drawMarquee (s\<lparr>marqueeBox := \<lparr>start = None, end' = None\<rparr>\<rparr>)) = emitted s @ es"
      using drawMarquee_empty_emitted by blast
    have m: "marqueeBox (drawMarquee (s\<lparr>marqueeBox := \<lparr>start = None, end' = None\<rparr>\<rparr>))
               = \<lparr>start = None, end' = None\<rparr>"
      by (simp add: drawMarquee_def)
    from bp have "boxPointsFromOppositeCorners u' (start (marqueeBox s)) (end' (marqueeBox s))
                    = Inr bp"
      by (simp add: assms)
    from endMarquee_Inr [OF this v] es m show ?thesis by simp
  qed
  have "boxPointsFromOppositeCorners spec_utils (Some (pt a b)) (Some (pt c d))
          = Inr [pt a b, pt a d, pt c d, pt c b]"
    and "oppositeCornersFromBoxPoints spec_utils [pt a b, pt a d, pt c d, pt c b]
          = Inr (vp (max a c) (max b d) (min a c) (min b d))"
    unfolding spec_utils_sel by (rule spec_corners_pt)+
  from gen [OF this] gen show ?thesis by blast
qed

theorem endMarquee_no_degenerate_check_witness:
  "\<exists>s' es. endMarquee spec_utils pointScope = Inr s' \<and>
      viewport s' = vp (max 3 3) (max 4 4) (min 3 3) (min 4 4) \<and>
      marqueeBox s' = \<lparr>start = None, end' = None\<rparr> \<and>
      emitted s' = emitted pointScope @ es @
        [ViewportChangeEnd (vp (max 3 3) (max 4 4) (min 3 3) (min 4 4))]"
proof -
  have a: "start (marqueeBox pointScope) = Some (pt 3 4)"
    and b: "end' (marqueeBox pointScope) = Some (pt 3 4)"
    by (simp_all add: pointScope_def)
  from endMarquee_no_degenerate_check [OF a b, of spec_utils] show ?thesis by blast
qed

text \<open>
  C8. With the functions of \<open>utils\<close> as the spec describes them, the marquee from (10, 5)
  to (2, 9) ends with the viewport \<open>topLeft = (10, 9)\<close>, \<open>bottomRight = (2, 5)\<close> installed
  and sent, whatever the rest of the state.
\<close>

theorem endMarquee_normalization_example:
  "\<exists>s' es. endMarquee spec_utils
               (s\<lparr>marqueeBox := \<lparr>start = Some (pt 10 5), end' = Some (pt 2 9)\<rparr>\<rparr>) = Inr s' \<and>
      viewport s' = \<lparr>topLeft = \<lparr>domain = Num 10, range' = Num 9\<rparr>,
                      bottomRight = \<lparr>domain = Num 2, range' = Num 5\<rparr>\<rparr> \<and>
      emitted s' = emitted s @ es @
        [ViewportChangeEnd \<lparr>topLeft = \<lparr>domain = Num 10, range' = Num 9\<rparr>,
                            bottomRight = \<lparr>domain = Num 2, range' = Num 5\<rparr>\<rparr>]"
proof -
  let ?s = "s\<lparr>marqueeBox := \<lparr>start = Some (pt 10 5), end' = Some (pt 2 9)\<rparr>\<rparr>"
  have "boxPointsFromOppositeCorners spec_utils (Some (pt 10 5)) (Some (pt 2 9))
          = Inr [pt 10 5, pt 10 9, pt 2 9, pt 2 5]"
    unfolding spec_utils_sel by (rule spec_corners_pt)
  then have bp:
    "boxPointsFromOppositeCorners spec_utils (start (marqueeBox ?s)) (end' (marqueeBox ?s))
       = Inr [pt 10 5, pt 10 9, pt 2 9, pt 2 5]"
    by simp
  have v: "oppositeCornersFromBoxPoints spec_utils [pt 10 5, pt 10 9, pt 2 9, pt 2 5]
             = Inr \<lparr>topLeft = \<lparr>domain = Num 10, range' = Num 9\<rparr>,
                    bottomRight = \<lparr>domain = Num 2, range' = Num 5\<rparr>\<rparr>"
    using spec_corners_pt(2) [of 10 5 9 2] by (simp add: spec_utils_sel vp_def pt_def)
  obtain es where es:
    "emitted (drawMarquee (?s\<lparr>marqueeBox := \<lparr>start = None, end' = None\<rparr>\<rparr>)) = emitted ?s @ es"
    using drawMarquee_empty_emitted by blast
  from endMarquee_Inr [OF bp v] es show ?thesis by simp
qed

section \<open>Drag: the start of the gesture\<close>

text \<open>
  C6, as the spec states it, fails. Right after \<open>link\<close> no pointer position is tracked, and
  \<open>startDrag\<close> still sends \<open>user:viewport:change:start\<close>.
\<close>

theorem startDrag_untracked_counterexample:
  "mouseCoordinates (link (vp 0 10 10 0) []) = None \<and>
   emitted (link (vp 0 10 10 0) []) = [] \<and>
   startDrag (link (vp 0 10 10 0) []) =
     ((link (vp 0 10 10 0) [])\<lparr>emitted := [ViewportChangeStart]\<rparr>, False)"
  by (simp add: startDrag_def link_def)

text \<open>
  C6, amended. \<open>startDrag\<close> first sends \<open>user:viewport:change:start\<close>, whether a pointer
  position is tracked or not. Without one it does nothing else: no drag start is recorded
  and the event is not handled. With one it records the plot point of the pointer as
  \<open>dragStart\<close> and handles the event.
\<close>

theorem startDrag_emits_first:
  "emitted (fst (startDrag s)) = emitted s @ [ViewportChangeStart] \<and>
   (mouseCoordinates s = None \<longrightarrow>
      startDrag s = (s\<lparr>emitted := emitted s @ [ViewportChangeStart]\<rparr>, False)) \<and>
   (\<forall>mc. mouseCoordinates s = Some mc \<longrightarrow>
      startDrag s = (s\<lparr>emitted := emitted s @ [ViewportChangeStart],
                       dragStart := Some (positionAsPlotPoint mc)\<rparr>, True))"
  by (cases "mouseCoordinates s") (simp_all add: startDrag_def)

theorem startDrag_emits_first_witness:
  "mouseCoordinates (link (vp 0 10 10 0) []) = None \<and>
   startDrag (link (vp 0 10 10 0) []) =
     ((link (vp 0 10 10 0) [])\<lparr>emitted := [] @ [ViewportChangeStart]\<rparr>, False) \<and>
   startDrag hoverScope =
     (hoverScope\<lparr>emitted := [] @ [ViewportChangeStart], dragStart := Some (pt 3 4)\<rparr>, True)"
proof -
  have n: "mouseCoordinates (link (vp 0 10 10 0) []) = None"
    and e: "emitted (link (vp 0 10 10 0) []) = []"
    by (simp_all add: link_def)
  have m: "mouseCoordinates hoverScope =
             Some \<lparr>positionOverElement = \<lparr>elem_x = Num 30, elem_y = Num 60\<rparr>,
                   positionAsPlotPoint = pt 3 4\<rparr>"
    and e': "emitted hoverScope = []"
    by (simp_all add: hoverScope_def link_def)
  from startDrag_emits_first [of "link (vp 0 10 10 0) []"] n e
  have 1: "startDrag (link (vp 0 10 10 0) []) =
             ((link (vp 0 10 10 0) [])\<lparr>emitted := [] @ [ViewportChangeStart]\<rparr>, False)"
    by simp
  from startDrag_emits_first [of hoverScope] m e'
  have 2: "startDrag hoverScope =
     (hoverScope\<lparr>emitted := [] @ [ViewportChangeStart], dragStart := Some (pt 3 4)\<rparr>, True)"
    by simp
  from n 1 2 show ?thesis by blast
qed

section \<open>Removing a rule\<close>

lemma upt_filter_shift:
  "[j \<leftarrow> [Suc k..<Suc k + n]. (c # cs) ! (j - k) \<noteq> None]
     = [j \<leftarrow> [Suc k..<Suc k + n]. cs ! (j - Suc k) \<noteq> None]"
proof (rule filter_cong [OF refl])
  fix j assume "j \<in> set [Suc k..<Suc k + n]"
  then have "j - k = Suc (j - Suc k)" by auto
  then show "((c # cs) ! (j - k) \<noteq> None) = (cs ! (j - Suc k) \<noteq> None)" by simp
qed

lemma forEachCallback_all:
  assumes "\<forall>g. Some g \<in> set cs \<longrightarrow>
             (\<forall>w. \<exists>w'. g (configuration env, w) = Inr (configuration env, w'))"
  shows "forEachCallback cs k env =
           (None, env\<lparr>page := pageAfter cs (configuration env) (page env),
                      invoked := invoked env @ [j \<leftarrow> [k..<k + length cs]. cs ! (j - k) \<noteq> None]\<rparr>)"
  using assms
proof (induction cs arbitrary: k env)
  case Nil
  then show ?case by simp
next
  case (Cons c cs)
  have up: "[k..<k + length (c # cs)] = k # [Suc k..<Suc k + length cs]"
    by (subst upt_rec) simp
  show ?case
  proof (cases c)
    case None
    have tl: "\<forall>g. Some g \<in> set cs \<longrightarrow>
                (\<forall>w. \<exists>w'. g (configuration env, w) = Inr (configuration env, w'))"
      using Cons.prems by simp
    show ?thesis
      unfolding up using None Cons.IH [OF tl, of "Suc k"]
        upt_filter_shift [where k = k and n = "length cs" and c = c and cs = cs]
      by simp
  next
    case (Some g)
    then obtain w' where g: "g (configuration env, page env) = Inr (configuration env, w')"
      using Cons.prems by (meson list.set_intros(1))
    let ?e = "env\<lparr>configuration := configuration env, page := w', invoked := invoked env @ [k]\<rparr>"
    have tl: "\<forall>g. Some g \<in> set cs \<longrightarrow>
                (\<forall>w. \<exists>w'. g (configuration ?e, w) = Inr (configuration ?e, w'))"
      using Cons.prems by simp
    show ?thesis
      unfolding up using Some g Cons.IH [OF tl, of "Suc k"]
        upt_filter_shift [where k = k and n = "length cs" and c = c and cs = cs]
      by simp
  qed
qed

text \<open>
  Registering: \<open>on\<close> appends to the list of the event, also an entry that is not a
  function; it raises for a key that every object inherits and ignores any other key.
\<close>

lemma on_examples:
  "on (sampleRule\<lparr>callbacks_remove := []\<rparr>) ''remove'' (Some redraw)
     = Inr (sampleRule\<lparr>callbacks_remove := [Some redraw]\<rparr>)"
  "on (sampleRule\<lparr>callbacks_remove := [Some redraw]\<rparr>) ''remove'' None
     = Inr (sampleRule\<lparr>callbacks_remove := [Some redraw, None]\<rparr>)"
  "on (sampleRule\<lparr>callbacks_remove := [Some redraw, None]\<rparr>) ''remove'' (Some redraw)
     = Inr sampleRule"
  "on sampleRule ''constructor'' (Some redraw) = Inl TypeError"
  "on sampleRule ''click'' (Some redraw) = Inr sampleRule"
  by (simp_all add: on_def sampleRule_def objectPrototypeKeys_def)

text \<open>
  C10, as the spec states it, fails. The callbacks are code of the caller. When the first
  registered callback throws, the exception leaves \<open>remove\<close> and the callback registered
  after it is not invoked: the page it would redraw is as before. When a callback puts the
  id back, \<open>ruleOrder\<close> contains it after \<open>remove\<close> has run.
\<close>

theorem remove_callbacks_counterexample:
  "callbacks_remove failingRule = [Some failing, Some redraw] \<and>
   fst (remove failingRule sampleEnv) = Some ''Error'' \<and>
   invoked (snd (remove failingRule sampleEnv)) = [0] \<and>
   page (snd (remove failingRule sampleEnv)) = page sampleEnv \<and>
   fst (remove restoringRule sampleEnv) = None \<and>
   ruleOrder (configuration (snd (remove restoringRule sampleEnv)))
     = [''default'', ''rule2'', ''rule1'']"
  by (simp add: remove_def failingRule_def restoringRule_def sampleRule_def sampleEnv_def
      failing_def redraw_def restore_def Let_def)

text \<open>
  C10, amended. \<open>remove\<close> first brings the domain object to a state in which \<open>ruleOrder\<close>
  is the former list without any occurrence of the id of the rule and \<open>ruleConfigById\<close>
  has \<open>undefined\<close> at the id and its former value at every other id, passes both to
  \<open>openmct.objects.mutate\<close>, and then runs the loop over \<open>callbacks.remove\<close> from that
  state. If every truthy entry of \<open>callbacks.remove\<close>, called on that configuration,
  returns normally and leaves it as it is, then \<open>remove\<close> returns normally with that
  configuration, each truthy entry was invoked once, in the order of registration, and
  the page is what these calls, one after the other, make of it.
\<close>

theorem remove_effect:
  "\<exists>env1. remove self env = forEachCallback (callbacks_remove self) 0 env1 \<and>
     ruleOrder (configuration env1) =
       filter (\<lambda>ruleId. ruleId \<noteq> config_id self) (ruleOrder (configuration env)) \<and>
     config_id self \<notin> set (ruleOrder (configuration env1)) \<and>
     ruleConfigById (configuration env1) (config_id self) = Some Undefined \<and>
     getProp (ruleConfigById (configuration env1)) (config_id self) = Undefined \<and>
     (\<forall>k. k \<noteq> config_id self \<longrightarrow>
        ruleConfigById (configuration env1) k = ruleConfigById (configuration env) k) \<and>
     mutated env1 = mutated env @ [''configuration.ruleConfigById'', ''configuration.ruleOrder''] \<and>
     page env1 = page env \<and> invoked env1 = invoked env \<and>
     ((\<forall>g. Some g \<in> set (callbacks_remove self) \<longrightarrow>
          (\<forall>w. \<exists>w'. g (configuration env1, w) = Inr (configuration env1, w'))) \<longrightarrow>
        remove self env =
          (None, env1\<lparr>page := pageAfter (callbacks_remove self) (configuration env1) (page env),
                      invoked := invoked env @
                        [j \<leftarrow> [0..<length (callbacks_remove self)].
                           callbacks_remove self ! j \<noteq> None]\<rparr>))"
proof -
  let ?m = "(ruleConfigById (configuration env))(config_id self \<mapsto> Undefined)"
  let ?o = "filter (\<lambda>ruleId. \<not> ruleId = config_id self) (ruleOrder (configuration env))"
  let ?e = "mutate (mutate (env\<lparr>configuration := \<lparr>ruleOrder = ?o, ruleConfigById = ?m\<rparr>\<rparr>)
                      (SetRuleConfigById ?m)) (SetRuleOrder ?o)"
  have r: "remove self env = forEachCallback (callbacks_remove self) 0 ?e"
    by (simp add: remove_def Let_def)
  have c: "configuration ?e = \<lparr>ruleOrder = ?o, ruleConfigById = ?m\<rparr>"
    and i: "invoked ?e = invoked env" and p: "page ?e = page env"
    and m: "mutated ?e = mutated env @ [''configuration.ruleConfigById'', ''configuration.ruleOrder'']"
    by simp_all
  have 1: "ruleOrder (configuration ?e) =
       filter (\<lambda>ruleId. ruleId \<noteq> config_id self) (ruleOrder (configuration env))"
    unfolding c by simp
  have 2: "config_id self \<notin> set (ruleOrder (configuration ?e))"
    unfolding c by simp
  have 3: "ruleConfigById (configuration ?e) (config_id self) = Some Undefined"
    unfolding c by simp
  have 4: "getProp (ruleConfigById (configuration ?e)) (config_id self) = Undefined"
    unfolding c by (simp add: getProp_def)
  have 5: "\<forall>k. k \<noteq> config_id self \<longrightarrow>
        ruleConfigById (configuration ?e) k = ruleConfigById (configuration env) k"
    unfolding c by simp
  have 6: "remove self env =
          (None, ?e\<lparr>page := pageAfter (callbacks_remove self) (configuration ?e) (page env),
                    invoked := invoked env @
                      [j \<leftarrow> [0..<length (callbacks_remove self)].
                         callbacks_remove self ! j \<noteq> None]\<rparr>)"
    if h: "\<forall>g. Some g \<in> set (callbacks_remove self) \<longrightarrow>
          (\<forall>w. \<exists>w'. g (configuration ?e, w) = Inr (configuration ?e, w'))"
    unfolding r forEachCallback_all [OF h, of 0] i p by simp
  from r 1 2 3 4 5 m p i 6 show ?thesis by blast
qed

theorem remove_effect_witness:
  "fst (remove sampleRule sampleEnv) = None \<and>
   ruleOrder (configuration (snd (remove sampleRule sampleEnv))) = [''default'', ''rule2''] \<and>
   ''rule1'' \<notin> set (ruleOrder (configuration (snd (remove sampleRule sampleEnv)))) \<and>
   ruleConfigById (configuration (snd (remove sampleRule sampleEnv))) ''rule1'' = Some Undefined \<and>
   ruleConfigById (configuration (snd (remove sampleRule sampleEnv))) ''rule2'' = Some (Config 2) \<and>
   invoked (snd (remove sampleRule sampleEnv)) = [0, 2] \<and>
   page sampleEnv = 0 \<and> page (snd (remove sampleRule sampleEnv)) = 2"
proof -
  have cb: "callbacks_remove sampleRule = [Some redraw, None, Some redraw]"
    and id: "config_id sampleRule = ''rule1''"
    by (simp_all add: sampleRule_def)
  have pos: "[j \<leftarrow> [0..<length (callbacks_remove sampleRule)].
               callbacks_remove sampleRule ! j \<noteq> None] = [0, 2]"
    unfolding cb by (simp add: upt_rec)
  have ro: "filter (\<lambda>ruleId. ruleId \<noteq> config_id sampleRule)
              (ruleOrder (configuration sampleEnv)) = [''default'', ''rule2'']"
    unfolding id by (simp add: sampleEnv_def)
  have keep: "ruleConfigById (configuration sampleEnv) ''rule2'' = Some (Config 2)"
    by (simp add: sampleEnv_def)
  have inv: "invoked sampleEnv = []" and pg: "page sampleEnv = 0"
    by (simp_all add: sampleEnv_def)
  have ne: "''rule2'' \<noteq> config_id sampleRule"
    unfolding id by simp
  have pa: "pageAfter (callbacks_remove sampleRule) c 0 = 2" for c :: "nat configuration"
    unfolding cb by (simp add: redraw_def)
  from remove_effect [of sampleRule sampleEnv] obtain env1 where
    1: "ruleOrder (configuration env1) =
       filter (\<lambda>ruleId. ruleId \<noteq> config_id sampleRule) (ruleOrder (configuration sampleEnv))"
    and 2: "config_id sampleRule \<notin> set (ruleOrder (configuration env1))"
    and 3: "ruleConfigById (configuration env1) (config_id sampleRule) = Some Undefined"
    and 5: "\<forall>k. k \<noteq> config_id sampleRule \<longrightarrow>
              ruleConfigById (configuration env1) k = ruleConfigById (configuration sampleEnv) k"
    and 6: "(\<forall>g. Some g \<in> set (callbacks_remove sampleRule) \<longrightarrow>
          (\<forall>w. \<exists>w'. g (configuration env1, w) = Inr (configuration env1, w'))) \<longrightarrow>
        remove sampleRule sampleEnv =
          (None, env1\<lparr>page := pageAfter (callbacks_remove sampleRule) (configuration env1)
                               (page sampleEnv),
                      invoked := invoked sampleEnv @
                        [j \<leftarrow> [0..<length (callbacks_remove sampleRule)].
                           callbacks_remove sampleRule ! j \<noteq> None]\<rparr>)"
    by blast
  have h: "\<forall>g. Some g \<in> set (callbacks_remove sampleRule) \<longrightarrow>
          (\<forall>w. \<exists>w'. g (configuration env1, w) = Inr (configuration env1, w'))"
    unfolding cb by (simp add: redraw_def)
  from 6 h have e: "remove sampleRule sampleEnv = (None, env1\<lparr>page := 2, invoked := [0, 2]\<rparr>)"
    unfolding pos inv pg pa by simp
  from 5 ne keep have 7: "ruleConfigById (configuration env1) ''rule2'' = Some (Config 2)"
    by simp
  from 1 ro have 8: "ruleOrder (configuration env1) = [''default'', ''rule2'']"
    by simp
  show ?thesis
    unfolding e using 8 2 3 7 pg unfolding id by simp
qed

end
